theory Spec2Isabelle
  imports Complex_Main "HOL-Library.AList"
begin

section \<open>The collection filter and the collection query of Strawberry\<close>

text \<open>
  A shallow embedding of \<^verbatim>\<open>src/collection/collectionfilter.cpp\<close> (the tree filter
  with its inline filter-text parser) and of \<^verbatim>\<open>src/collection/collectionquery.cpp\<close>
  (the SQL query builder).

  Conventions of the embedding.
  \<^item> A \<^verbatim>\<open>QString\<close> is a \<open>string\<close>. A \<open>char\<close> stands for a code unit below 256; case
    mapping is the one of the ASCII letters, every other code unit is caseless.
  \<^item> Member variables lose their trailing underscore (\<^verbatim>\<open>limit_\<close> is \<open>limit\<close>).
  \<^item> A \<^verbatim>\<open>void\<close> member function that mutates the object takes the object and returns
    the updated one.
  \<^item> \<^verbatim>\<open>QString::arg\<close> applied to a literal pattern with the place markers \<^verbatim>\<open>%1\<close>,
    \<^verbatim>\<open>%2\<close>, \<^verbatim>\<open>%3\<close> fills all markers in one pass, so the result is the
    concatenation of the literal pieces and the arguments.
\<close>

subsection \<open>The operations of QString that the sources call\<close>

text \<open>The class \<^verbatim>\<open>\s\<close> of \<^verbatim>\<open>QRegularExpression("\\s+")\<close> (no Unicode properties
  option): HT, LF, VT, FF, CR and the space.\<close>

definition regex_space :: "char \<Rightarrow> bool" where
  "regex_space c = (let n = (of_char c :: nat) in (9 \<le> n \<and> n \<le> 13) \<or> n = 32)"

text \<open>\<^verbatim>\<open>QChar::isSpace\<close>, which \<^verbatim>\<open>QString::trimmed\<close> uses: the six characters above and,
  below 256, NEL (U+0085) and the no-break space (U+00A0).\<close>

definition QChar_isSpace :: "char \<Rightarrow> bool" where
  "QChar_isSpace c =
     (let n = (of_char c :: nat) in n = 32 \<or> (9 \<le> n \<and> n \<le> 13) \<or> n = 133 \<or> n = 160)"

definition QChar_toLower :: "char \<Rightarrow> char" where
  "QChar_toLower c =
     (let n = (of_char c :: nat) in if 65 \<le> n \<and> n \<le> 90 then char_of (n + 32) else c)"

definition toLower :: "string \<Rightarrow> string" where
  "toLower s = map QChar_toLower s"

text \<open>\<^verbatim>\<open>filter.split(QRegularExpression("\\s+"), Qt::SkipEmptyParts)\<close>: the maximal runs
  of characters that are not white space, in order. \<open>cur\<close> is the run being read.\<close>

fun split_acc :: "string \<Rightarrow> string \<Rightarrow> string list" where
  "split_acc cur [] = (if cur = [] then [] else [cur])"
| "split_acc cur (c # cs) =
     (if regex_space c then (if cur = [] then [] else [cur]) @ split_acc [] cs
      else split_acc (cur @ [c]) cs)"

definition split_SkipEmptyParts :: "string \<Rightarrow> string list" where
  "split_SkipEmptyParts s = split_acc [] s"

text \<open>\<^verbatim>\<open>s.remove(ch)\<close> deletes every occurrence of the character.\<close>

definition remove_char :: "char \<Rightarrow> string \<Rightarrow> string" where
  "remove_char ch s = filter (\<lambda>c. c \<noteq> ch) s"

text \<open>\<^verbatim>\<open>s.trimmed()\<close> drops the white space at both ends.\<close>

definition trimmed :: "string \<Rightarrow> string" where
  "trimmed s = rev (dropWhile QChar_isSpace (rev (dropWhile QChar_isSpace s)))"

text \<open>\<^verbatim>\<open>s.section(sep, 0, 0)\<close> is the text before the first separator (all of \<open>s\<close>
  when there is none); \<^verbatim>\<open>s.section(sep, 1, -1)\<close> is the text after the first
  separator (empty when there is none). Empty fields count, as with the default flags.\<close>

definition section_0_0 :: "char \<Rightarrow> string \<Rightarrow> string" where
  "section_0_0 sep s = takeWhile (\<lambda>c. c \<noteq> sep) s"

definition section_1_end :: "char \<Rightarrow> string \<Rightarrow> string" where
  "section_1_end sep s = drop 1 (dropWhile (\<lambda>c. c \<noteq> sep) s)"

text \<open>\<^verbatim>\<open>s.contains(v, Qt::CaseInsensitive)\<close>: \<open>v\<close> occurs in \<open>s\<close> as a substring, letter case
  aside. The empty string occurs in every string.\<close>

fun startsWith :: "string \<Rightarrow> string \<Rightarrow> bool" where
  "startsWith s [] = True"
| "startsWith [] (b # v) = False"
| "startsWith (a # s) (b # v) = (a = b \<and> startsWith s v)"

fun contains_cs :: "string \<Rightarrow> string \<Rightarrow> bool" where
  "contains_cs [] v = (v = [])"
| "contains_cs (a # s) v = (startsWith (a # s) v \<or> contains_cs s v)"

definition contains_ci :: "string \<Rightarrow> string \<Rightarrow> bool" where
  "contains_ci s v = contains_cs (toLower s) (toLower v)"

text \<open>\<^verbatim>\<open>list.contains(s, Qt::CaseInsensitive)\<close> of a \<^verbatim>\<open>QStringList\<close>: some element
  equals \<open>s\<close>, letter case aside.\<close>

definition QStringList_contains_ci :: "string list \<Rightarrow> string \<Rightarrow> bool" where
  "QStringList_contains_ci l s = list_ex (\<lambda>e. toLower e = toLower s) l"

subsection \<open>The filter text: tokens, tags and free text\<close>

text \<open>\<^verbatim>\<open>QMap<QString, QString> tags\<close> is an association list with one entry for a key;
  \<^verbatim>\<open>tags.insert(tag, value)\<close> replaces the value of a key that is there and adds the
  key otherwise. (A \<^verbatim>\<open>QMap\<close> iterates in key order; the one iteration of the source,
  in \<^verbatim>\<open>TagMatches\<close>, returns whether some entry matches, which no order changes.)\<close>

type_synonym TagMap = "(string \<times> string) list"

definition QMap_insert :: "string \<Rightarrow> string \<Rightarrow> TagMap \<Rightarrow> TagMap" where
  "QMap_insert k v m = AList.update k v m"

definition QMap_contains :: "TagMap \<Rightarrow> string \<Rightarrow> bool" where
  "QMap_contains m k = (map_of m k \<noteq> None)"

text \<open>\<^verbatim>\<open>tags[tag]\<close>, read where the key is known to be there.\<close>

definition QMap_value :: "TagMap \<Rightarrow> string \<Rightarrow> string" where
  "QMap_value m k = (case map_of m k of Some v \<Rightarrow> v | None \<Rightarrow> [])"

text \<open>Modelled from the spec: \<^verbatim>\<open>Song::kColumns\<close>, declared in \<^verbatim>\<open>core/song.h\<close>, which is
  not among the sources. The functions below take the list as the parameter \<open>kColumns\<close>;
  this constant is the list of tag names the specification gives, for concrete runs.\<close>

definition kColumns_spec :: "string list" where
  "kColumns_spec = [''albumartist'', ''artist'', ''album'', ''title'', ''genre'',
     ''composer'', ''performer'', ''grouping'', ''filetype'']"

text \<open>\<^verbatim>\<open>if (!filter.isEmpty()) filter.append(" "); filter += token;\<close>\<close>

definition append_token :: "string \<Rightarrow> string \<Rightarrow> string" where
  "append_token flt token = (if flt \<noteq> [] then flt @ '' '' else flt) @ token"

text \<open>The body of the loop over the tokens in \<^verbatim>\<open>filterAcceptsRow\<close>; the state is the pair
  of \<^verbatim>\<open>tags\<close> and \<^verbatim>\<open>filter\<close>.\<close>

definition parse_token :: "string list \<Rightarrow> string \<Rightarrow> TagMap \<times> string \<Rightarrow> TagMap \<times> string" where
  "parse_token kColumns token st =
     (case st of (tags, flt) \<Rightarrow>
        if CHR '':'' \<in> set token then
          if QStringList_contains_ci kColumns (section_0_0 CHR '':'' token) then
            let tag = trimmed (remove_char CHR '':'' (section_0_0 CHR '':'' token));
                val = trimmed (remove_char CHR '':'' (section_1_end CHR '':'' token))
            in if tag \<noteq> [] \<and> val \<noteq> [] then (QMap_insert tag val tags, flt)
               else (tags, flt)
          else
            let token' = trimmed (remove_char CHR '':'' token)
            in if token' \<noteq> [] then (tags, append_token flt token') else (tags, flt)
        else (tags, append_token flt token))"

text \<open>The parser that \<^verbatim>\<open>filterAcceptsRow\<close> runs on the filter text: split, clear the
  filter, and loop over the tokens. The result is the tag map and the free text.\<close>

definition Parse :: "string list \<Rightarrow> string \<Rightarrow> TagMap \<times> string" where
  "Parse kColumns filter_text =
     fold (parse_token kColumns) (split_SkipEmptyParts filter_text) ([], [])"

subsection \<open>Songs, items and the collection model\<close>

text \<open>What the filter reads of a \<^verbatim>\<open>Song\<close> (\<^verbatim>\<open>core/song.h\<close> is not among the sources):
  the results of \<^verbatim>\<open>is_valid()\<close>, \<^verbatim>\<open>effective_albumartist()\<close>, \<^verbatim>\<open>artist()\<close>,
  \<^verbatim>\<open>album()\<close> and \<^verbatim>\<open>title()\<close>.\<close>

record Song =
  is_valid :: bool
  effective_albumartist :: string
  artist :: string
  album :: string
  title :: string

text \<open>\<^verbatim>\<open>CollectionItem::Type\<close>; the filter names \<^verbatim>\<open>Type_LoadingIndicator\<close> only.\<close>

datatype ItemType = Type_Root | Type_Divider | Type_Container | Type_Song | Type_LoadingIndicator

text \<open>A \<^verbatim>\<open>CollectionItem\<close> with the members the filter reads: \<^verbatim>\<open>type\<close>, the result of
  \<^verbatim>\<open>DisplayText()\<close>, \<^verbatim>\<open>metadata\<close>, \<^verbatim>\<open>container_level\<close> and \<^verbatim>\<open>children\<close>. An item
  owns its children, so the items below an item form a finite tree.\<close>

datatype CollectionItem =
  CollectionItem (type: ItemType) (DisplayText: string) (metadata: Song)
    (container_level: int) (children: "CollectionItem list")

text \<open>A \<^verbatim>\<open>CollectionItem *\<close> that is not null: the item pointed to, and the chain
  \<^verbatim>\<open>item->parent\<close>, \<^verbatim>\<open>item->parent->parent\<close>, ... up to the item whose parent is null
  (the root), nearest first.\<close>

record ItemPtr =
  item :: CollectionItem
  parents :: "CollectionItem list"

text \<open>The proper descendants of an item: its children and theirs, in preorder.\<close>

fun descendants :: "CollectionItem \<Rightarrow> CollectionItem list" where
  "descendants (CollectionItem ty dt md lvl cs) = concat (map (\<lambda>c. c # descendants c) cs)"

text \<open>\<^verbatim>\<open>CollectionModel::GroupBy\<close>, with the enumerators of the switch in \<^verbatim>\<open>TagMatches\<close>.\<close>

datatype GroupBy =
  GroupBy_AlbumArtist | GroupBy_Artist | GroupBy_Album | GroupBy_AlbumDisc
  | GroupBy_YearAlbum | GroupBy_YearAlbumDisc | GroupBy_OriginalYearAlbum
  | GroupBy_OriginalYearAlbumDisc | GroupBy_Disc | GroupBy_Year | GroupBy_OriginalYear
  | GroupBy_Genre | GroupBy_Composer | GroupBy_Performer | GroupBy_Grouping
  | GroupBy_FileType | GroupBy_Format | GroupBy_Bitdepth | GroupBy_Samplerate
  | GroupBy_Bitrate | GroupBy_None | GroupBy_GroupByCount

text \<open>A \<^verbatim>\<open>QModelIndex\<close>: whether it is valid, and the data the model put into it.\<close>

record QModelIndex =
  isValid :: bool
  internalId :: nat

text \<open>A \<^verbatim>\<open>CollectionModel\<close> (\<^verbatim>\<open>collectionmodel.h\<close> is not among the sources), as the
  functions the filter calls on it: \<^verbatim>\<open>index(row, 0, parent)\<close>, \<^verbatim>\<open>IndexToItem(idx)\<close>
  (\<open>None\<close> is the null pointer) and \<^verbatim>\<open>GetGroupBy()[level]\<close>.\<close>

record CollectionModel =
  index :: "int \<Rightarrow> QModelIndex \<Rightarrow> QModelIndex"
  IndexToItem :: "QModelIndex \<Rightarrow> ItemPtr option"
  GetGroupBy :: "int \<Rightarrow> GroupBy"

text \<open>The state of the \<^verbatim>\<open>CollectionFilter\<close> proxy that \<^verbatim>\<open>filterAcceptsRow\<close> reads:
  \<^verbatim>\<open>qobject_cast<CollectionModel*>(sourceModel())\<close> (\<open>None\<close> when the cast gives null)
  and the pattern of the filter expression. \<open>qt6\<close> says which branch of the
  \<^verbatim>\<open>QT_VERSION\<close> conditionals is compiled.\<close>

record CollectionFilter =
  sourceModel :: "CollectionModel option"
  pattern :: string
  qt6 :: bool

subsection \<open>Matching\<close>

text \<open>\<^verbatim>\<open>TagMatches(item, tags)\<close>, for a song: the loop over the entries of the map.\<close>

fun TagMatches_song :: "Song \<Rightarrow> TagMap \<Rightarrow> bool" where
  "TagMatches_song md [] = False"
| "TagMatches_song md ((k, v) # rest) =
     (let tag = toLower k in
      if tag = ''albumartist'' \<and> contains_ci (effective_albumartist md) v then True
      else if tag = ''artist'' \<and> contains_ci (artist md) v then True
      else if tag = ''album'' \<and> contains_ci (album md) v then True
      else if tag = ''title'' \<and> contains_ci (title md) v then True
      else TagMatches_song md rest)"

text \<open>The switch of \<^verbatim>\<open>TagMatches(item, group_by, tags)\<close>: the tag of a grouping, empty
  when the grouping has none.\<close>

fun group_by_tag :: "GroupBy \<Rightarrow> string" where
  "group_by_tag GroupBy_AlbumArtist = ''albumartist''"
| "group_by_tag GroupBy_Artist = ''artist''"
| "group_by_tag GroupBy_Album = ''album''"
| "group_by_tag GroupBy_AlbumDisc = ''album''"
| "group_by_tag GroupBy_YearAlbum = ''album''"
| "group_by_tag GroupBy_YearAlbumDisc = ''album''"
| "group_by_tag GroupBy_OriginalYearAlbum = ''album''"
| "group_by_tag GroupBy_OriginalYearAlbumDisc = ''album''"
| "group_by_tag GroupBy_Disc = []"
| "group_by_tag GroupBy_Year = []"
| "group_by_tag GroupBy_OriginalYear = []"
| "group_by_tag GroupBy_Genre = ''genre''"
| "group_by_tag GroupBy_Composer = ''composer''"
| "group_by_tag GroupBy_Performer = ''performer''"
| "group_by_tag GroupBy_Grouping = ''grouping''"
| "group_by_tag GroupBy_FileType = ''filetype''"
| "group_by_tag GroupBy_Format = []"
| "group_by_tag GroupBy_Bitdepth = []"
| "group_by_tag GroupBy_Samplerate = []"
| "group_by_tag GroupBy_Bitrate = []"
| "group_by_tag GroupBy_None = []"
| "group_by_tag GroupBy_GroupByCount = []"

text \<open>\<^verbatim>\<open>TagMatches(item, group_by, tags)\<close>, for a container.\<close>

definition TagMatches_container :: "CollectionItem \<Rightarrow> GroupBy \<Rightarrow> TagMap \<Rightarrow> bool" where
  "TagMatches_container it group_by tags =
     (let tag = group_by_tag group_by;
          val = (if tag \<noteq> [] \<and> QMap_contains tags tag then QMap_value tags tag else [])
      in val \<noteq> [] \<and> contains_ci (DisplayText it) val)"

definition ItemMatches :: "CollectionModel \<Rightarrow> CollectionItem \<Rightarrow> TagMap \<Rightarrow> string \<Rightarrow> bool" where
  "ItemMatches model it tags flt =
     (if (flt = [] \<or> contains_ci (DisplayText it) flt)
         \<and> (tags = []
            \<or> (is_valid (metadata it) \<and> TagMatches_song (metadata it) tags)
            \<or> (container_level it \<ge> 0 \<and> container_level it \<le> 2
                \<and> TagMatches_container it (GetGroupBy model (container_level it)) tags))
      then True else False)"

text \<open>\<^verbatim>\<open>ChildrenMatches\<close>, and its loop over the children, which returns at the first
  child that matches.\<close>

fun ChildrenMatches :: "CollectionModel \<Rightarrow> CollectionItem \<Rightarrow> TagMap \<Rightarrow> string \<Rightarrow> bool"
  and ChildrenMatches_loop :: "CollectionModel \<Rightarrow> CollectionItem list \<Rightarrow> TagMap \<Rightarrow> string \<Rightarrow> bool"
where
  "ChildrenMatches model (CollectionItem ty dt md lvl cs) tags flt =
     (if ItemMatches model (CollectionItem ty dt md lvl cs) tags flt then True
      else ChildrenMatches_loop model cs tags flt)"
| "ChildrenMatches_loop model [] tags flt = False"
| "ChildrenMatches_loop model (child # rest) tags flt =
     (if ChildrenMatches model child tags flt then True
      else ChildrenMatches_loop model rest tags flt)"

text \<open>The loop over the parents in \<^verbatim>\<open>filterAcceptsRow\<close>: true at the first parent that
  matches, false when the chain ends.\<close>

fun parents_match :: "CollectionModel \<Rightarrow> CollectionItem list \<Rightarrow> TagMap \<Rightarrow> string \<Rightarrow> bool" where
  "parents_match model [] tags flt = False"
| "parents_match model (parent # up) tags flt =
     (if ItemMatches model parent tags flt then True else parents_match model up tags flt)"

text \<open>The filter text that \<^verbatim>\<open>filterAcceptsRow\<close> reads: with Qt 6
  \<^verbatim>\<open>filterRegularExpression().pattern().remove('\\')\<close>, before that
  \<^verbatim>\<open>filterRegExp().pattern()\<close>.\<close>

definition filter_text :: "CollectionFilter \<Rightarrow> string" where
  "filter_text self = (if qt6 self then remove_char (CHR 0x5C) (pattern self) else pattern self)"

text \<open>\<^verbatim>\<open>CollectionFilter::filterAcceptsRow(source_row, source_parent)\<close>.\<close>

definition filterAcceptsRow :: "string list \<Rightarrow> CollectionFilter \<Rightarrow> int \<Rightarrow> QModelIndex \<Rightarrow> bool" where
  "filterAcceptsRow kColumns self source_row source_parent =
     (case sourceModel self of
        None \<Rightarrow> False
      | Some model \<Rightarrow>
          let idx = index model source_row source_parent in
          if \<not> isValid idx then False
          else
            (case IndexToItem model idx of
               None \<Rightarrow> False
             | Some p \<Rightarrow>
                 if type (item p) = Type_LoadingIndicator then True
                 else
                   let flt0 = filter_text self in
                   if flt0 = [] then True
                   else
                     (case Parse kColumns flt0 of
                        (tags, flt) \<Rightarrow>
                          if ItemMatches model (item p) tags flt then True
                          else if parents_match model (parents p) tags flt then True
                          else ChildrenMatches model (item p) tags flt)))"

subsection \<open>Values and texts of the query builder\<close>

text \<open>\<^verbatim>\<open>QString::number(n)\<close> for an integer: the decimal digits, after a minus sign for
  a negative number.\<close>

fun digits :: "nat \<Rightarrow> string" where
  "digits n = (if n < 10 then [char_of (48 + n)] else digits (n div 10) @ [char_of (48 + n mod 10)])"

declare digits.simps [simp del]

definition QString_number :: "int \<Rightarrow> string" where
  "QString_number i = (if i < 0 then CHR ''-'' # digits (nat (- i)) else digits (nat i))"

text \<open>\<^verbatim>\<open>list.join(sep)\<close> of a \<^verbatim>\<open>QStringList\<close>.\<close>

fun join :: "string \<Rightarrow> string list \<Rightarrow> string" where
  "join sep [] = []"
| "join sep [x] = x"
| "join sep (x # y # ys) = x @ sep @ join sep (y # ys)"

text \<open>\<^verbatim>\<open>s.replace(before, after)\<close>: every occurrence of the text \<open>old\<close>, read from
  the left and not overlapping, becomes the text \<open>new\<close>. The source calls it with an
  \<open>old\<close> that is not empty.\<close>

function QString_replace :: "string \<Rightarrow> string \<Rightarrow> string \<Rightarrow> string" where
  "QString_replace old new [] = []"
| "QString_replace old new (c # s) =
     (if old \<noteq> [] \<and> startsWith (c # s) old
      then new @ QString_replace old new (drop (length old) (c # s))
      else c # QString_replace old new s)"
  by pat_completeness auto
termination
  by (relation "measure (\<lambda>(old, new, s). length s)") auto

text \<open>The two apostrophes of an empty SQL string literal.\<close>

definition sql_empty :: string where
  "sql_empty = [CHR 0x27, CHR 0x27]"

subsection \<open>The type float\<close>

text \<open>A \<^verbatim>\<open>float\<close> is an IEEE 754 binary32 number: a finite number, given by its value,
  an infinity (\<open>True\<close> is the negative one) or a NaN. The two zeros are one value (no
  comparison tells them apart). Arithmetic is the one of \<^verbatim>\<open>float\<close> operands evaluated in
  \<^verbatim>\<open>float\<close>: the exact result, rounded once to the nearest number of the format, to the
  one with the even significand when two are as near.\<close>

datatype float = Finite rat | Infinity bool | NaN

text \<open>The nearest integer, the even one at a tie.\<close>

definition round_half_even :: "rat \<Rightarrow> int" where
  "round_half_even m =
     (let f = \<lfloor>m\<rfloor>; d = m - of_int f
      in if d < 1 / 2 then f else if 1 / 2 < d then f + 1 else if even f then f else f + 1)"

text \<open>The exponent of the binade of a magnitude \<open>a\<close>: the least \<open>e\<close> from \<open>-126\<close> (the
  binade of the subnormal numbers too) to 127 with \<open>a < 2 ^ (e + 1)\<close>; none when \<open>a\<close>
  is \<open>2 ^ 128\<close> or more.\<close>

definition float_exponent :: "rat \<Rightarrow> int option" where
  "float_exponent a = find (\<lambda>e. a < 2 powi (e + 1)) [- 126..127]"

text \<open>Rounding to \<^verbatim>\<open>float\<close>: in the binade of exponent \<open>e\<close> the numbers of the format
  are the multiples of \<open>2 ^ (e - 23)\<close> (24 bits of significand); a result of \<open>2 ^ 128\<close>
  or more overflows to the infinity of its sign.\<close>

definition round_float :: "rat \<Rightarrow> float" where
  "round_float x =
     (case float_exponent \<bar>x\<bar> of
        None \<Rightarrow> Infinity (x < 0)
      | Some e \<Rightarrow>
          let q = 2 powi (e - 23);
              r = of_int (round_half_even (\<bar>x\<bar> / q)) * q
          in if 2 powi 128 \<le> r then Infinity (x < 0)
             else Finite (if x < 0 then - r else r))"

text \<open>\<^verbatim>\<open>x + y\<close>, \<^verbatim>\<open>-y\<close> and \<^verbatim>\<open>x - y\<close> on \<^verbatim>\<open>float\<close>.\<close>

fun fadd :: "float \<Rightarrow> float \<Rightarrow> float" where
  "fadd NaN y = NaN"
| "fadd x NaN = NaN"
| "fadd (Infinity s) (Infinity t) = (if s = t then Infinity s else NaN)"
| "fadd (Infinity s) (Finite b) = Infinity s"
| "fadd (Finite a) (Infinity t) = Infinity t"
| "fadd (Finite a) (Finite b) = round_float (a + b)"

fun fneg :: "float \<Rightarrow> float" where
  "fneg NaN = NaN"
| "fneg (Infinity s) = Infinity (\<not> s)"
| "fneg (Finite a) = Finite (- a)"

definition fsub :: "float \<Rightarrow> float \<Rightarrow> float" where
  "fsub x y = fadd x (fneg y)"

text \<open>\<^verbatim>\<open>const float tolerance = 0.001F\<close> of \<^verbatim>\<open>AddWhereRating\<close>: the \<^verbatim>\<open>float\<close> nearest
  to one thousandth.\<close>

definition tolerance :: float where
  "tolerance = round_float (1 / 1000)"

subsection \<open>Variants\<close>

text \<open>A \<^verbatim>\<open>QVariant\<close>, with the types of value that reach the builder. A \<^verbatim>\<open>QString\<close>
  held by a variant, alone or in a string list, is \<open>None\<close> when it is null
  (\<^verbatim>\<open>isNull()\<close>).\<close>

datatype QVariant =
    QVariant_Int int
  | QVariant_LongLong int
  | QVariant_Float float
  | QVariant_String "string option"
  | QVariant_StringList "string option list"
  | QVariant_List "QVariant list"

text \<open>The functions of the environment that are not among the sources, as parameters:
  \<^verbatim>\<open>Utilities::ParseSearchRating\<close> (\<^verbatim>\<open>utilities/searchparserutils.h\<close>), and the text
  that Qt gives for a \<^verbatim>\<open>float\<close>.\<close>

record Environment =
  ParseSearchRating :: "string \<Rightarrow> float"
  float_toString :: "float \<Rightarrow> string"

text \<open>The characters of a \<^verbatim>\<open>QString\<close>, none for the null string.\<close>

definition chars :: "string option \<Rightarrow> string" where
  "chars s = (case s of None \<Rightarrow> [] | Some t \<Rightarrow> t)"

text \<open>\<^verbatim>\<open>value.toString()\<close> as a \<^verbatim>\<open>QString\<close>: the text of a number, the string of a
  string variant, the one element of a string list that has one element, and the null
  string otherwise.\<close>

fun toQString :: "Environment \<Rightarrow> QVariant \<Rightarrow> string option" where
  "toQString env (QVariant_Int i) = Some (QString_number i)"
| "toQString env (QVariant_LongLong i) = Some (QString_number i)"
| "toQString env (QVariant_Float x) = Some (float_toString env x)"
| "toQString env (QVariant_String s) = s"
| "toQString env (QVariant_StringList l) = (case l of [x] \<Rightarrow> x | _ \<Rightarrow> None)"
| "toQString env (QVariant_List l) = None"

text \<open>The characters of \<^verbatim>\<open>value.toString()\<close>.\<close>

definition toString :: "Environment \<Rightarrow> QVariant \<Rightarrow> string" where
  "toString env val = chars (toQString env val)"

text \<open>\<^verbatim>\<open>value.toStringList()\<close>: the list of a string list, the strings of the
  elements of a variant list, the one-element list of a string, and the empty list
  otherwise.\<close>

fun toStringList :: "Environment \<Rightarrow> QVariant \<Rightarrow> string option list" where
  "toStringList env (QVariant_StringList l) = l"
| "toStringList env (QVariant_List l) = map (toQString env) l"
| "toStringList env (QVariant_String s) = [s]"
| "toStringList env (QVariant_Int i) = []"
| "toStringList env (QVariant_LongLong i) = []"
| "toStringList env (QVariant_Float x) = []"

subsection \<open>The query builder\<close>

text \<open>\<^verbatim>\<open>CollectionFilterOptions\<close> (\<^verbatim>\<open>collectionfilteroptions.h\<close> is not among the
  sources): the results of \<^verbatim>\<open>max_age()\<close> and \<^verbatim>\<open>filter_mode()\<close>.\<close>

datatype FilterMode = FilterMode_All | FilterMode_Duplicates | FilterMode_Untagged

record CollectionFilterOptions =
  max_age :: int
  filter_mode :: FilterMode

text \<open>The members of a \<^verbatim>\<open>CollectionQuery\<close>.\<close>

record CollectionQuery =
  songs_table :: string
  column_spec :: string
  order_by :: string
  where_clauses :: "string list"
  bound_values :: "QVariant list"
  include_unavailable :: bool
  duplicates_only :: bool
  limit :: int

text \<open>The constructor. \<open>now\<close> is \<^verbatim>\<open>QDateTime::currentDateTime().toSecsSinceEpoch()\<close>;
  the difference of a \<^verbatim>\<open>qint64\<close> time and an \<^verbatim>\<open>int\<close> age is computed in
  \<^verbatim>\<open>qint64\<close>.\<close>

definition new_CollectionQuery ::
  "int \<Rightarrow> string \<Rightarrow> CollectionFilterOptions \<Rightarrow> CollectionQuery" where
  "new_CollectionQuery now table filter_options =
     (let q0 = \<lparr>songs_table = table, column_spec = [], order_by = [], where_clauses = [],
                bound_values = [], include_unavailable = False, duplicates_only = False,
                limit = - 1\<rparr>;
          q1 = (if max_age filter_options \<noteq> - 1
                then q0\<lparr>where_clauses := where_clauses q0 @ [''ctime > ?''],
                        bound_values := bound_values q0
                          @ [QVariant_LongLong (now - max_age filter_options)]\<rparr>
                else q0);
          q2 = q1\<lparr>duplicates_only := (filter_mode filter_options = FilterMode_Duplicates)\<rparr>
      in if filter_mode filter_options = FilterMode_Untagged
         then q2\<lparr>where_clauses := where_clauses q2
                @ [''(artist = '' @ sql_empty @ '' OR album = '' @ sql_empty
                   @ '' OR title ='' @ sql_empty @ '')'']\<rparr>
         else q2)"

text \<open>The loop of the \<^verbatim>\<open>IN\<close> branch of \<^verbatim>\<open>AddWhere\<close>: a question mark for every
  value, and the value bound as the string it is, null or not. The state is
  \<^verbatim>\<open>final_values\<close> and \<^verbatim>\<open>bound_values_\<close>.\<close>

fun AddWhere_IN_loop ::
  "string option list \<Rightarrow> string list \<times> QVariant list \<Rightarrow> string list \<times> QVariant list" where
  "AddWhere_IN_loop [] st = st"
| "AddWhere_IN_loop (single_value # vs) (final_values, bound) =
     AddWhere_IN_loop vs (final_values @ [''?''], bound @ [QVariant_String single_value])"

text \<open>\<^verbatim>\<open>op.compare("IN", Qt::CaseInsensitive) == 0\<close>\<close>

definition is_IN :: "string \<Rightarrow> bool" where
  "is_IN op = (toLower op = toLower ''IN'')"

definition AddWhere ::
  "Environment \<Rightarrow> string \<Rightarrow> QVariant \<Rightarrow> string \<Rightarrow> CollectionQuery \<Rightarrow> CollectionQuery" where
  "AddWhere env column val op q =
     (if is_IN op then
        (case AddWhere_IN_loop (toStringList env val) ([], bound_values q) of
           (final_values, bound) \<Rightarrow>
             q\<lparr>where_clauses := where_clauses q
                  @ [column @ '' IN ('' @ join '','' final_values @ '')''],
               bound_values := bound\<rparr>)
      else
        (case val of
           QVariant_Int i \<Rightarrow>
             q\<lparr>where_clauses := where_clauses q
                  @ [column @ '' '' @ op @ '' '' @ toString env val]\<rparr>
         | QVariant_String None \<Rightarrow>
             q\<lparr>where_clauses := where_clauses q @ [column @ '' '' @ op @ '' ?''],
               bound_values := bound_values q @ [QVariant_String (Some [])]\<rparr>
         | _ \<Rightarrow>
             q\<lparr>where_clauses := where_clauses q @ [column @ '' '' @ op @ '' ?''],
               bound_values := bound_values q @ [val]\<rparr>))"

definition AddWhereArtist :: "QVariant \<Rightarrow> CollectionQuery \<Rightarrow> CollectionQuery" where
  "AddWhereArtist val q =
     q\<lparr>where_clauses := where_clauses q
          @ [''((artist = ? AND albumartist = '' @ sql_empty @ '') OR albumartist = ?)''],
       bound_values := bound_values q @ [val, val]\<rparr>"

definition AddWhereRating ::
  "Environment \<Rightarrow> QVariant \<Rightarrow> string \<Rightarrow> CollectionQuery \<Rightarrow> CollectionQuery" where
  "AddWhereRating env val op q =
     (let parsed_rating = ParseSearchRating env (toString env val);
          minus_tol = QVariant_Float (fsub parsed_rating tolerance);
          plus_tol = QVariant_Float (fadd parsed_rating tolerance)
      in if op = ''<'' then AddWhere env ''rating'' minus_tol ''<'' q
         else if op = ''>'' then AddWhere env ''rating'' plus_tol ''>'' q
         else if op = ''<='' then AddWhere env ''rating'' plus_tol ''<='' q
         else if op = ''>='' then AddWhere env ''rating'' minus_tol ''>='' q
         else if op = ''<>'' then
           q\<lparr>where_clauses := where_clauses q @ [''(rating<? OR rating>?)''],
             bound_values := bound_values q @ [minus_tol, plus_tol]\<rparr>
         else AddWhere env ''rating'' minus_tol ''>'' (AddWhere env ''rating'' plus_tol ''<'' q))"

definition AddCompilationRequirement :: "bool \<Rightarrow> CollectionQuery \<Rightarrow> CollectionQuery" where
  "AddCompilationRequirement compilation q =
     q\<lparr>where_clauses := where_clauses q
          @ [''+compilation_effective = '' @ QString_number (if compilation then 1 else 0)]\<rparr>"

definition GetInnerQuery :: "CollectionQuery \<Rightarrow> string" where
  "GetInnerQuery q =
     (if duplicates_only q
      then '' INNER JOIN (select * from duplicated_songs) dsongs        ''
         @ ''ON (%songs_table.artist = dsongs.dup_artist       ''
         @ ''AND %songs_table.album = dsongs.dup_album     ''
         @ ''AND %songs_table.title = dsongs.dup_title)    ''
      else [])"

text \<open>The text that \<^verbatim>\<open>Exec\<close> builds, in the steps of the source: the select with the
  inner query, the where clauses, the order, the limit; \<open>Exec_sql\<close> is the text after
  the table name has been put in, which is the text prepared.\<close>

definition Exec_where_clauses :: "CollectionQuery \<Rightarrow> string list" where
  "Exec_where_clauses q =
     (if \<not> include_unavailable q then where_clauses q @ [''unavailable = 0'']
      else where_clauses q)"

definition Exec_select :: "CollectionQuery \<Rightarrow> string" where
  "Exec_select q = ''SELECT '' @ column_spec q @ '' FROM '' @ songs_table q @ '' '' @ GetInnerQuery q"

definition Exec_where :: "CollectionQuery \<Rightarrow> string" where
  "Exec_where q =
     (if Exec_where_clauses q \<noteq> [] then '' WHERE '' @ join '' AND '' (Exec_where_clauses q)
      else [])"

definition Exec_order_by :: "CollectionQuery \<Rightarrow> string" where
  "Exec_order_by q = (if order_by q \<noteq> [] then '' ORDER BY '' @ order_by q else [])"

definition Exec_limit :: "CollectionQuery \<Rightarrow> string" where
  "Exec_limit q = (if limit q \<noteq> - 1 then '' LIMIT '' @ QString_number (limit q) else [])"

definition Exec_sql_unreplaced :: "CollectionQuery \<Rightarrow> string" where
  "Exec_sql_unreplaced q = Exec_select q @ Exec_where q @ Exec_order_by q @ Exec_limit q"

definition Exec_sql :: "CollectionQuery \<Rightarrow> string" where
  "Exec_sql q = QString_replace ''%songs_table'' (songs_table q) (Exec_sql_unreplaced q)"

text \<open>The statement interface of \<^verbatim>\<open>QSqlQuery\<close>: \<^verbatim>\<open>prepare(sql)\<close>, and \<^verbatim>\<open>exec()\<close> of
  the prepared text with the values bound in order.\<close>

record QSqlQuery =
  prepare :: "string \<Rightarrow> bool"
  exec :: "string \<Rightarrow> QVariant list \<Rightarrow> bool"

definition Exec :: "QSqlQuery \<Rightarrow> CollectionQuery \<Rightarrow> bool" where
  "Exec db q =
     (let sql = Exec_sql q
      in if \<not> prepare db sql then False else exec db sql (bound_values q))"

subsection \<open>Sequences of builder calls, and the placeholders of the clauses\<close>

text \<open>A call of one of the builder operations, with its arguments.\<close>

datatype BuilderCall =
    Call_AddWhere string "QVariant" string
  | Call_AddWhereArtist "QVariant"
  | Call_AddWhereRating "QVariant" string
  | Call_AddCompilationRequirement bool

fun run_call :: "Environment \<Rightarrow> BuilderCall \<Rightarrow> CollectionQuery \<Rightarrow> CollectionQuery" where
  "run_call env (Call_AddWhere column val op) q = AddWhere env column val op q"
| "run_call env (Call_AddWhereArtist val) q = AddWhereArtist val q"
| "run_call env (Call_AddWhereRating val op) q = AddWhereRating env val op q"
| "run_call env (Call_AddCompilationRequirement compilation) q =
     AddCompilationRequirement compilation q"

text \<open>The calls of a list, first to last.\<close>

definition run_calls ::
  "Environment \<Rightarrow> BuilderCall list \<Rightarrow> CollectionQuery \<Rightarrow> CollectionQuery" where
  "run_calls env calls q = fold (run_call env) calls q"

text \<open>The number of question marks in a text, and in a list of clauses read in
  order.\<close>

definition qmarks :: "string \<Rightarrow> nat" where
  "qmarks s = length (filter (\<lambda>c. c = CHR ''?'') s)"

definition placeholders :: "string list \<Rightarrow> nat" where
  "placeholders clauses = qmarks (concat clauses)"

text \<open>A call whose column and operator texts hold no question mark of their own.\<close>

fun plain_call :: "BuilderCall \<Rightarrow> bool" where
  "plain_call (Call_AddWhere column val op) = (CHR ''?'' \<notin> set column \<and> CHR ''?'' \<notin> set op)"
| "plain_call (Call_AddWhereArtist val) = True"
| "plain_call (Call_AddWhereRating val op) = True"
| "plain_call (Call_AddCompilationRequirement compilation) = True"

text \<open>\<open>q'\<close> extends \<open>q\<close> in lock-step: its clauses are those of \<open>q\<close> followed by new ones,
  its bound values are those of \<open>q\<close> followed by new ones, and the new clauses hold as
  many question marks as there are new values.\<close>

definition lockstep :: "CollectionQuery \<Rightarrow> CollectionQuery \<Rightarrow> bool" where
  "lockstep q q' =
     (take (length (where_clauses q)) (where_clauses q') = where_clauses q
      \<and> take (length (bound_values q)) (bound_values q') = bound_values q
      \<and> placeholders (drop (length (where_clauses q)) (where_clauses q'))
          = length (drop (length (bound_values q)) (bound_values q')))"

subsection \<open>Concrete data for running the definitions\<close>

definition example_song :: Song where
  "example_song = \<lparr>is_valid = True, effective_albumartist = ''Daft Punk'',
     artist = ''Daft Punk'', album = ''Discovery'', title = ''One More Time''\<rparr>"

definition no_song :: Song where
  "no_song = \<lparr>is_valid = False, effective_albumartist = [], artist = [], album = [],
     title = []\<rparr>"

definition example_song_item :: CollectionItem where
  "example_song_item = CollectionItem Type_Song ''One More Time'' example_song (- 1) []"

definition example_album_item :: CollectionItem where
  "example_album_item = CollectionItem Type_Container ''Discovery'' no_song 1 [example_song_item]"

definition example_genre_item :: CollectionItem where
  "example_genre_item = CollectionItem Type_Container ''House'' no_song 0 [example_album_item]"

definition example_root :: CollectionItem where
  "example_root = CollectionItem Type_Root [] no_song (- 1) [example_genre_item]"

text \<open>A model of the tree above, grouped by genre and album. The invalid index stands
  for the root; the identifiers 1, 2 and 3 stand for the genre, the album and the song;
  row 1 of the root has a valid index that resolves to no item.\<close>

definition root_index :: QModelIndex where
  "root_index = \<lparr>isValid = False, internalId = 0\<rparr>"

definition example_model :: CollectionModel where
  "example_model =
     \<lparr>index = (\<lambda>row parent.
        if row = 0 \<and> \<not> isValid parent then \<lparr>isValid = True, internalId = 1\<rparr>
        else if row = 0 \<and> internalId parent = 1 then \<lparr>isValid = True, internalId = 2\<rparr>
        else if row = 0 \<and> internalId parent = 2 then \<lparr>isValid = True, internalId = 3\<rparr>
        else if row = 1 \<and> \<not> isValid parent then \<lparr>isValid = True, internalId = 9\<rparr>
        else \<lparr>isValid = False, internalId = 0\<rparr>),
      IndexToItem = (\<lambda>idx.
        if internalId idx = 1
        then Some \<lparr>item = example_genre_item, parents = [example_root]\<rparr>
        else if internalId idx = 2
        then Some \<lparr>item = example_album_item, parents = [example_genre_item, example_root]\<rparr>
        else if internalId idx = 3
        then Some \<lparr>item = example_song_item,
                    parents = [example_album_item, example_genre_item, example_root]\<rparr>
        else None),
      GetGroupBy = (\<lambda>level.
        if level = 0 then GroupBy_Genre else if level = 1 then GroupBy_Album
        else GroupBy_None)\<rparr>"

definition example_filter :: "string \<Rightarrow> CollectionFilter" where
  "example_filter pat = \<lparr>sourceModel = Some example_model, pattern = pat, qt6 = True\<rparr>"

text \<open>An environment for the runs: in the place of the rating parser, a function that
  reads the text \<^verbatim>\<open>4.0\<close> as the \<^verbatim>\<open>float\<close> 4 (and gives \<open>-1\<close> otherwise); no run below
  asks for the text of a \<^verbatim>\<open>float\<close>.\<close>

definition example_env :: Environment where
  "example_env = \<lparr>ParseSearchRating = (\<lambda>s. if s = ''4.0'' then Finite 4 else Finite (- 1)),
     float_toString = (\<lambda>x. [])\<rparr>"

definition example_query :: CollectionQuery where
  "example_query =
     (new_CollectionQuery 0 ''songs'' \<lparr>max_age = - 1, filter_mode = FilterMode_All\<rparr>)
       \<lparr>column_spec := ''title''\<rparr>"

definition example_calls :: "BuilderCall list" where
  "example_calls =
     [Call_AddWhere ''year'' (QVariant_Int 2020) ''='',
      Call_AddWhere ''track'' (QVariant_StringList [Some ''1'', Some ''2'', Some ''3'']) ''IN'',
      Call_AddWhereArtist (QVariant_String (Some ''Daft Punk'')),
      Call_AddWhereRating (QVariant_String (Some ''4.0'')) ''='',
      Call_AddCompilationRequirement False]"

section \<open>Properties of the tree filter\<close>

subsection \<open>The loops as quantifiers\<close>

lemma parents_match_iff:
  "parents_match model ps tags flt = (\<exists>a\<in>set ps. ItemMatches model a tags flt)"
  by (induction ps) auto

lemma ChildrenMatches_iff:
  "ChildrenMatches model it tags flt =
     (ItemMatches model it tags flt
      \<or> (\<exists>d\<in>set (descendants it). ItemMatches model d tags flt))"
  "ChildrenMatches_loop model cs tags flt =
     (\<exists>c\<in>set cs. ItemMatches model c tags flt
        \<or> (\<exists>d\<in>set (descendants c). ItemMatches model d tags flt))"
  by (induction model it tags flt and model cs tags flt
      rule: ChildrenMatches_ChildrenMatches_loop.induct) auto

lemma Parse_empty: "Parse kColumns [] = ([], [])"
  by (simp add: Parse_def split_SkipEmptyParts_def)

lemma ItemMatches_no_filter: "ItemMatches model it [] [] = True"
  by (simp add: ItemMatches_def)

subsection \<open>Visibility of a row\<close>

text \<open>
  C1. For a row that resolves to an item other than the loading indicator, and for
  every filter text, \<open>filterAcceptsRow\<close> accepts the row if and only if, for the tags
  and the free text that the filter text parses to, the item matches, or an item of its
  parent chain matches, or one of its descendants matches (\<open>ItemMatches\<close> is the match
  of one item). The three cases are a plain disjunction. The order of the search and
  its stop at the first match do not change the truth value.
\<close>

theorem filterAcceptsRow_self_ancestor_descendant:
  assumes "sourceModel self = Some model"
    and "isValid (index model source_row source_parent)"
    and "IndexToItem model (index model source_row source_parent) = Some p"
    and "type (item p) \<noteq> Type_LoadingIndicator"
  shows "filterAcceptsRow kColumns self source_row source_parent =
     (case Parse kColumns (filter_text self) of
        (tags, flt) \<Rightarrow>
          ItemMatches model (item p) tags flt
          \<or> (\<exists>a\<in>set (parents p). ItemMatches model a tags flt)
          \<or> (\<exists>d\<in>set (descendants (item p)). ItemMatches model d tags flt))"
proof (cases "filter_text self = []")
  case True
  then show ?thesis using assms
    by (simp add: filterAcceptsRow_def Parse_empty ItemMatches_no_filter)
next
  case False
  then show ?thesis using assms
    by (auto simp: filterAcceptsRow_def Let_def parents_match_iff ChildrenMatches_iff
        split: prod.splits)
qed

text \<open>The album of the example tree under the filter text \<^verbatim>\<open>title:more\<close>: the album does
  not match, its song does, and the row of the album is accepted.\<close>

theorem filterAcceptsRow_self_ancestor_descendant_witness:
  "sourceModel (example_filter ''title:more'') = Some example_model
   \<and> isValid (index example_model 0 \<lparr>isValid = True, internalId = 1\<rparr>)
   \<and> IndexToItem example_model (index example_model 0 \<lparr>isValid = True, internalId = 1\<rparr>)
       = Some \<lparr>item = example_album_item, parents = [example_genre_item, example_root]\<rparr>
   \<and> type example_album_item \<noteq> Type_LoadingIndicator
   \<and> Parse kColumns_spec (filter_text (example_filter ''title:more''))
       = ([(''title'', ''more'')], [])
   \<and> \<not> ItemMatches example_model example_album_item [(''title'', ''more'')] []
   \<and> ItemMatches example_model example_song_item [(''title'', ''more'')] []
   \<and> filterAcceptsRow kColumns_spec (example_filter ''title:more'') 0
        \<lparr>isValid = True, internalId = 1\<rparr>"
proof -
  let ?f = "example_filter ''title:more''"
  let ?i = "\<lparr>isValid = True, internalId = 1\<rparr>"
  let ?p = "\<lparr>item = example_album_item, parents = [example_genre_item, example_root]\<rparr>"
  have h1: "sourceModel ?f = Some example_model"
    by (simp add: example_filter_def)
  have h2: "isValid (index example_model 0 ?i)"
    by (simp add: example_model_def)
  have h3: "IndexToItem example_model (index example_model 0 ?i) = Some ?p"
    by (simp add: example_model_def)
  have h4: "type (item ?p) \<noteq> Type_LoadingIndicator"
    by (simp add: example_album_item_def)
  have p: "Parse kColumns_spec (filter_text ?f) = ([(''title'', ''more'')], [])"
    by code_simp
  have m1: "\<not> ItemMatches example_model example_album_item [(''title'', ''more'')] []"
    by code_simp
  have m2: "ItemMatches example_model example_song_item [(''title'', ''more'')] []"
    by code_simp
  have d: "example_song_item \<in> set (descendants example_album_item)"
    by (simp add: example_album_item_def example_song_item_def)
  have "filterAcceptsRow kColumns_spec ?f 0 ?i"
    using filterAcceptsRow_self_ancestor_descendant [OF h1 h2 h3 h4, of kColumns_spec] p m2 d
    by auto
  with h1 h2 h3 h4 p m1 m2 show ?thesis by simp
qed

text \<open>
  C9. When the source model is missing (the cast to a collection model gives null), or
  the index of the row is not valid, or the index resolves to no item,
  \<open>filterAcceptsRow\<close> returns false. The function has no other outcome than a truth
  value.
\<close>

theorem filterAcceptsRow_fails_closed:
  assumes "sourceModel self = None
     \<or> (\<exists>model. sourceModel self = Some model
          \<and> (\<not> isValid (index model source_row source_parent)
             \<or> IndexToItem model (index model source_row source_parent) = None))"
  shows "filterAcceptsRow kColumns self source_row source_parent = False"
  using assms by (auto simp: filterAcceptsRow_def Let_def)

text \<open>The three cases on concrete data: a filter without a model, row 5 of the example
  root (no valid index), row 1 (a valid index, no item); row 0 is accepted under the same
  filter text.\<close>

theorem filterAcceptsRow_fails_closed_witness:
  "sourceModel \<lparr>sourceModel = None, pattern = ''house'', qt6 = False\<rparr> = None
   \<and> \<not> filterAcceptsRow kColumns_spec
         \<lparr>sourceModel = None, pattern = ''house'', qt6 = False\<rparr> 0 root_index
   \<and> sourceModel (example_filter ''house'') = Some example_model
   \<and> \<not> isValid (index example_model 5 root_index)
   \<and> \<not> filterAcceptsRow kColumns_spec (example_filter ''house'') 5 root_index
   \<and> isValid (index example_model 1 root_index)
   \<and> IndexToItem example_model (index example_model 1 root_index) = None
   \<and> \<not> filterAcceptsRow kColumns_spec (example_filter ''house'') 1 root_index
   \<and> filterAcceptsRow kColumns_spec (example_filter ''house'') 0 root_index"
proof -
  let ?n = "\<lparr>sourceModel = None, pattern = ''house'', qt6 = False\<rparr>"
  let ?f = "example_filter ''house''"
  have a: "sourceModel ?n = None" by simp
  have b: "sourceModel ?f = Some example_model" by (simp add: example_filter_def)
  have c: "\<not> isValid (index example_model 5 root_index)"
    by (simp add: example_model_def root_index_def)
  have d: "isValid (index example_model 1 root_index)"
    by (simp add: example_model_def root_index_def)
  have e: "IndexToItem example_model (index example_model 1 root_index) = None"
    by (simp add: example_model_def root_index_def)
  have r1: "\<not> filterAcceptsRow kColumns_spec ?n 0 root_index"
    using filterAcceptsRow_fails_closed [of ?n 0 root_index kColumns_spec] a by simp
  have r2: "\<not> filterAcceptsRow kColumns_spec ?f 5 root_index"
    using filterAcceptsRow_fails_closed [of ?f 5 root_index kColumns_spec] b c by simp
  have r3: "\<not> filterAcceptsRow kColumns_spec ?f 1 root_index"
    using filterAcceptsRow_fails_closed [of ?f 1 root_index kColumns_spec] b e by simp
  have r4: "filterAcceptsRow kColumns_spec ?f 0 root_index"
    by code_simp
  from a b c d e r1 r2 r3 r4 show ?thesis by simp
qed

section \<open>Properties of the filter text parser\<close>

text \<open>
  C2, on concrete filter texts. The claim is that a value is recorded under the lower
  case form of the tag name, so that a map holds one entry for a tag. The parser
  inserts the tag as it was typed: \<^verbatim>\<open>Artist:a artist:b\<close> gives two entries, and
  \<^verbatim>\<open>Genre:house\<close> gives the key \<^verbatim>\<open>Genre\<close>, which the lookup of the container match
  (by the lower case name) does not find: the genre row \<^verbatim>\<open>House\<close> of the example tree
  is rejected under \<^verbatim>\<open>Genre:house\<close> and accepted under \<^verbatim>\<open>genre:house\<close>.
\<close>

theorem Parse_keeps_letter_case_of_tag:
  "Parse kColumns_spec ''Artist:a artist:b'' = ([(''Artist'', ''a''), (''artist'', ''b'')], [])
   \<and> Parse kColumns_spec ''Genre:house'' = ([(''Genre'', ''house'')], [])
   \<and> filterAcceptsRow kColumns_spec (example_filter ''Genre:house'') 0 root_index = False
   \<and> filterAcceptsRow kColumns_spec (example_filter ''genre:house'') 0 root_index = True"
  by code_simp

text \<open>
  C3, as the source has it. A token that contains a colon, whose text before the first
  colon is a recognized column name (letter case aside), and whose tag half or value
  half is empty after trimming, is dropped: the loop body leaves the tag map and the free
  text as they were, so the loop over the tokens ends in the state it would end in
  without the token.
\<close>

theorem parse_token_drops_tag_without_value:
  assumes "CHR '':'' \<in> set token"
    and "QStringList_contains_ci kColumns (section_0_0 CHR '':'' token)"
    and "trimmed (remove_char CHR '':'' (section_0_0 CHR '':'' token)) = []
         \<or> trimmed (remove_char CHR '':'' (section_1_end CHR '':'' token)) = []"
  shows "parse_token kColumns token (tags, flt) = (tags, flt)
     \<and> fold (parse_token kColumns) (ts1 @ token # ts2) st
         = fold (parse_token kColumns) (ts1 @ ts2) st"
proof -
  have d: "parse_token kColumns token s = s" for s
    using assms by (cases s) (auto simp: parse_token_def Let_def)
  then show ?thesis by simp
qed

text \<open>The token \<^verbatim>\<open>artist:\<close>, alone and between two words.\<close>

theorem parse_token_drops_tag_without_value_witness:
  "CHR '':'' \<in> set ''artist:''
   \<and> QStringList_contains_ci kColumns_spec (section_0_0 CHR '':'' ''artist:'')
   \<and> trimmed (remove_char CHR '':'' (section_1_end CHR '':'' ''artist:'')) = []
   \<and> parse_token kColumns_spec ''artist:'' ([(''album'', ''x'')], ''house'')
       = ([(''album'', ''x'')], ''house'')
   \<and> Parse kColumns_spec ''daft artist: punk'' = ([], ''daft punk'')"
proof -
  have a: "CHR '':'' \<in> set ''artist:''" by simp
  have b: "QStringList_contains_ci kColumns_spec (section_0_0 CHR '':'' ''artist:'')"
    by code_simp
  have c: "trimmed (remove_char CHR '':'' (section_1_end CHR '':'' ''artist:'')) = []"
    by code_simp
  have s: "split_SkipEmptyParts ''daft artist: punk'' = [''daft''] @ ''artist:'' # [''punk'']"
    by code_simp
  have p: "fold (parse_token kColumns_spec) ([''daft''] @ [''punk'']) ([], []) = ([], ''daft punk'')"
    by code_simp
  from parse_token_drops_tag_without_value
    [OF a b, of "[(''album'', ''x'')]" "''house''" "[''daft'']" "[''punk'']" "([], [])"]
    a b c s p
  show ?thesis by (simp add: Parse_def)
qed

text \<open>C3 as stated fails at the token \<^verbatim>\<open>artist:\<close>: without its colon the token is the
  text \<^verbatim>\<open>artist\<close>, which is not empty, and the free text does not receive it.\<close>

theorem Parse_tag_without_value_counterexample:
  "trimmed (remove_char CHR '':'' ''artist:'') = ''artist''
   \<and> Parse kColumns_spec ''artist:'' = ([], [])
   \<and> Parse kColumns_spec ''house artist:'' = ([], ''house'')"
  by code_simp

text \<open>
  C7, as the source has it. When \<^verbatim>\<open>unknown\<close> is no column name, the filter text
  \<^verbatim>\<open>unknown:foo bar\<close> parses to the empty tag map and the free text
  \<^verbatim>\<open>unknownfoo bar\<close>: the colon is removed from the token, the text before it stays.
\<close>

theorem Parse_unknown_tag:
  assumes "\<not> QStringList_contains_ci kColumns ''unknown''"
  shows "Parse kColumns ''unknown:foo bar'' = ([], ''unknownfoo bar'')"
proof -
  have s: "split_SkipEmptyParts ''unknown:foo bar'' = [''unknown:foo'', ''bar'']"
    by code_simp
  have h: "section_0_0 CHR '':'' ''unknown:foo'' = ''unknown''"
    by code_simp
  have t: "trimmed (remove_char CHR '':'' ''unknown:foo'') = ''unknownfoo''"
    by code_simp
  have 1: "parse_token kColumns ''unknown:foo'' ([], []) = ([], ''unknownfoo'')"
    using assms by (simp add: parse_token_def h t append_token_def)
  have 2: "parse_token kColumns ''bar'' ([], ''unknownfoo'') = ([], ''unknownfoo bar'')"
    by (simp add: parse_token_def append_token_def)
  show ?thesis by (simp add: Parse_def s 1 2)
qed

theorem Parse_unknown_tag_witness:
  "\<not> QStringList_contains_ci kColumns_spec ''unknown''
   \<and> Parse kColumns_spec ''unknown:foo bar'' = ([], ''unknownfoo bar'')"
proof -
  have a: "\<not> QStringList_contains_ci kColumns_spec ''unknown''" by code_simp
  from Parse_unknown_tag [OF a] a show ?thesis by simp
qed

text \<open>C7 as stated fails: the free text of \<^verbatim>\<open>unknown:foo bar\<close> is not \<^verbatim>\<open>foo bar\<close>.\<close>

theorem Parse_unknown_tag_counterexample:
  "snd (Parse kColumns_spec ''unknown:foo bar'') \<noteq> ''foo bar''"
  by code_simp

section \<open>Properties of the query builder\<close>

subsection \<open>The error of rounding to float\<close>

lemma find_sorted_le:
  "sorted xs \<Longrightarrow> y \<in> set xs \<Longrightarrow> P y \<Longrightarrow> \<exists>x. find P xs = Some x \<and> x \<le> y"
  for xs :: "int list"
  by (induction xs) auto

lemma round_half_even_error: "\<bar>of_int (round_half_even m) - m\<bar> \<le> 1 / 2"
proof -
  have "of_int \<lfloor>m\<rfloor> \<le> m" "m < of_int \<lfloor>m\<rfloor> + 1" by linarith+
  then show ?thesis
    by (auto simp: round_half_even_def Let_def)
qed

lemma float_exponent_small:
  assumes "a < 8"
  shows "\<exists>e. float_exponent a = Some e \<and> e \<le> 2"
proof -
  have "a < 2 powi (2 + 1)" using assms by simp
  moreover have "(2::int) \<in> set [- 126..127]" by (simp only: set_upto) simp
  moreover have "sorted [- 126..127::int]" by (rule sorted_upto)
  ultimately show ?thesis
    unfolding float_exponent_def
    using find_sorted_le [of "[- 126..127]" 2 "\<lambda>e. a < 2 powi (e + 1)"] by blast
qed

text \<open>Below 8 in magnitude the numbers of the format are at most \<open>2 ^ -21\<close> apart, so
  rounding moves a number by at most \<open>2 ^ -22\<close>.\<close>

lemma round_float_error:
  assumes "\<bar>x\<bar> < 8"
  shows "\<exists>y. round_float x = Finite y \<and> \<bar>y - x\<bar> \<le> 1 / 4194304"
proof -
  from float_exponent_small [OF assms] obtain e where
    e: "float_exponent \<bar>x\<bar> = Some e" and e2: "e \<le> 2" by blast
  define q :: rat where "q = 2 powi (e - 23)"
  define n where "n = round_half_even (\<bar>x\<bar> / q)"
  define r where "r = of_int n * q"
  have q0: "0 < q" by (simp add: q_def)
  have "q \<le> 2 powi (2 - 23)" unfolding q_def using e2 by (intro power_int_increasing) simp_all
  moreover have "(2::rat) powi (2 - 23) = 1 / 2097152" by code_simp
  ultimately have q1: "q \<le> 1 / 2097152" by simp
  have h: "\<bar>of_int n - \<bar>x\<bar> / q\<bar> \<le> 1 / 2"
    unfolding n_def by (rule round_half_even_error)
  have "(of_int n - \<bar>x\<bar> / q) * q = r - \<bar>x\<bar>"
    using q0 by (simp add: r_def left_diff_distrib)
  then have "\<bar>r - \<bar>x\<bar>\<bar> = \<bar>of_int n - \<bar>x\<bar> / q\<bar> * q"
    using q0 by (metis abs_mult abs_of_pos)
  also have "\<dots> \<le> 1 / 2 * q"
    using h q0 by (intro mult_right_mono) simp_all
  also have "\<dots> \<le> 1 / 4194304" using q1 by simp
  finally have err: "\<bar>r - \<bar>x\<bar>\<bar> \<le> 1 / 4194304" .
  then have "r < 9" using assms by linarith
  moreover have "(9::rat) \<le> 2 powi 128" by code_simp
  ultimately have small: "\<not> 2 powi 128 \<le> r" by simp
  have "round_float x =
      (if 2 powi 128 \<le> r then Infinity (x < 0) else Finite (if x < 0 then - r else r))"
    unfolding round_float_def e option.case Let_def r_def n_def q_def by (rule refl)
  then have "round_float x = Finite (if x < 0 then - r else r)"
    using small by (simp only: if_False)
  moreover have "\<bar>(if x < 0 then - r else r) - x\<bar> \<le> 1 / 4194304"
    using err by (auto simp: abs_if split: if_splits)
  ultimately show ?thesis by blast
qed

text \<open>The exponent that the search finds, for evaluation without the search.\<close>

lemma find_sorted_eq:
  "sorted xs \<Longrightarrow> e \<in> set xs \<Longrightarrow> P e \<Longrightarrow> (\<And>x. x \<in> set xs \<Longrightarrow> x < e \<Longrightarrow> \<not> P x)
     \<Longrightarrow> find P xs = Some e"
  for xs :: "int list"
  by (induction xs) (auto simp: order_le_less)

lemma float_exponent_eq:
  assumes "- 126 \<le> e" and "e \<le> 127"
    and "e = - 126 \<or> 2 powi e \<le> a" and "a < 2 powi (e + 1)"
  shows "float_exponent a = Some e"
  unfolding float_exponent_def
proof (rule find_sorted_eq)
  show "sorted [- 126..127::int]" by (rule sorted_upto)
  show "e \<in> set [- 126..127]" using assms(1,2) by (simp only: set_upto) simp
  show "a < 2 powi (e + 1)" by (rule assms(4))
  show "\<not> a < 2 powi (x + 1)" if "x \<in> set [- 126..127]" and "x < e" for x
  proof -
    from that have "- 126 \<le> x" by (simp only: set_upto) simp
    with \<open>x < e\<close> assms(3) have "2 powi e \<le> a" by auto
    moreover have "(2::rat) powi (x + 1) \<le> 2 powi e"
      using \<open>x < e\<close> by (intro power_int_increasing) simp_all
    ultimately show ?thesis by simp
  qed
qed

lemma tolerance_value: "tolerance = Finite (8589935 / 8589934592)"
proof -
  have e: "float_exponent \<bar>1 / 1000\<bar> = Some (- 10)"
    by (rule float_exponent_eq; code_simp)
  show ?thesis unfolding tolerance_def round_float_def e by code_simp
qed

lemma fadd_4_tolerance: "fadd (Finite 4) tolerance = Finite (8390705 / 2097152)"
proof -
  have e: "float_exponent \<bar>4 + 8589935 / 8589934592\<bar> = Some 2"
    by (rule float_exponent_eq; code_simp)
  have "round_float (4 + 8589935 / 8589934592) = Finite (8390705 / 2097152)"
    unfolding round_float_def e by code_simp
  then show ?thesis by (simp only: tolerance_value fadd.simps)
qed

lemma fsub_4_tolerance: "fsub (Finite 4) tolerance = Finite (8386511 / 2097152)"
proof -
  have e: "float_exponent \<bar>4 + - (8589935 / 8589934592)\<bar> = Some 1"
    by (rule float_exponent_eq; code_simp)
  have "round_float (4 + - (8589935 / 8589934592)) = Finite (8386511 / 2097152)"
    unfolding round_float_def e by code_simp
  then show ?thesis by (simp only: fsub_def tolerance_value fadd.simps fneg.simps)
qed

text \<open>The sum and the difference of a rating of magnitude up to 5 and the tolerance.\<close>

lemma fadd_tolerance_error:
  assumes "\<bar>r\<bar> \<le> 5"
  shows "\<exists>u. fadd (Finite r) tolerance = Finite u \<and> \<bar>u - (r + 1 / 1000)\<bar> \<le> 1 / 4000000"
proof -
  let ?t = "8589935 / 8589934592 :: rat"
  have "\<bar>r + ?t\<bar> < 8" using assms by linarith
  from round_float_error [OF this] obtain u where
    u: "round_float (r + ?t) = Finite u" and d: "\<bar>u - (r + ?t)\<bar> \<le> 1 / 4194304" by blast
  have "fadd (Finite r) tolerance = Finite u" by (simp add: tolerance_value u)
  moreover have "\<bar>u - (r + 1 / 1000)\<bar> \<le> 1 / 4000000" using d by linarith
  ultimately show ?thesis by blast
qed

lemma fsub_tolerance_error:
  assumes "\<bar>r\<bar> \<le> 5"
  shows "\<exists>l. fsub (Finite r) tolerance = Finite l \<and> \<bar>l - (r - 1 / 1000)\<bar> \<le> 1 / 4000000"
proof -
  let ?t = "8589935 / 8589934592 :: rat"
  have "\<bar>r - ?t\<bar> < 8" using assms by linarith
  from round_float_error [OF this] obtain l where
    l: "round_float (r - ?t) = Finite l" and d: "\<bar>l - (r - ?t)\<bar> \<le> 1 / 4194304" by blast
  have "fsub (Finite r) tolerance = Finite l" by (simp add: fsub_def tolerance_value l)
  moreover have "\<bar>l - (r - 1 / 1000)\<bar> \<le> 1 / 4000000" using d by linarith
  ultimately show ?thesis by blast
qed

subsection \<open>The characters of a number\<close>

lemma digits_table: "map (\<lambda>n::nat. char_of (48 + n)) [0..<10] = ''0123456789''"
  by code_simp

lemma digit_char: 
  assumes "(n::nat) < 10" shows "char_of (48 + n) \<in> set ''0123456789''"
proof -
  from assms have "n \<in> set [0..<10]" by simp
  then have "char_of (48 + n) \<in> set (map (\<lambda>n::nat. char_of (48 + n)) [0..<10])"
    by (simp only: set_map image_eqI)
  then show ?thesis by (simp only: digits_table)
qed

lemma digits_subset:
  assumes S: "\<And>d::nat. d < 10 \<Longrightarrow> char_of (48 + d) \<in> S"
  shows "set (digits n) \<subseteq> S"
proof (induction n rule: digits.induct)
  case (1 n)
  show ?case
  proof (cases "n < 10")
    case True
    have "digits n = [char_of (48 + n)]" using True by (subst digits.simps) simp
    then show ?thesis using S [OF True] by simp
  next
    case False
    have "n mod 10 < 10" by simp
    then have a: "char_of (48 + n mod 10) \<in> S" by (rule S)
    have b: "digits n = digits (n div 10) @ [char_of (48 + n mod 10)]"
      using False by (subst digits.simps) simp
    from 1 [OF False] a show ?thesis unfolding b by simp
  qed
qed

lemma digits_chars: "set (digits n) \<subseteq> set ''0123456789''"
  by (rule digits_subset) (rule digit_char)

lemma QString_number_no_question: "CHR ''?'' \<notin> set (QString_number i)"
proof -
  have "CHR ''?'' \<notin> set ''0123456789''" by simp
  then have "CHR ''?'' \<notin> set (digits n)" for n using digits_chars [of n] by blast
  then show ?thesis by (simp add: QString_number_def)
qed

lemma QString_number_no_percent: "CHR ''%'' \<notin> set (QString_number i)"
proof -
  have "CHR ''%'' \<notin> set ''0123456789''" by simp
  then have "CHR ''%'' \<notin> set (digits n)" for n using digits_chars [of n] by blast
  then show ?thesis by (simp add: QString_number_def)
qed


subsection \<open>Counting question marks\<close>

lemma placeholders_Nil: "placeholders [] = 0"
  by (simp add: placeholders_def qmarks_def)

lemma placeholders_append: "placeholders (xs @ ys) = placeholders xs + placeholders ys"
  by (simp add: placeholders_def qmarks_def)

lemma placeholders_single: "placeholders [s] = qmarks s"
  by (simp add: placeholders_def)

lemma qmarks_append: "qmarks (s @ t) = qmarks s + qmarks t"
  by (simp add: qmarks_def)

lemma qmarks_none: "CHR ''?'' \<notin> set s \<Longrightarrow> qmarks s = 0"
  by (induction s) (auto simp: qmarks_def)

lemma IN_loop_eq:
  "AddWhere_IN_loop vs (fv, b)
     = (fv @ replicate (length vs) ''?'', b @ map QVariant_String vs)"
  by (induction vs arbitrary: fv b) (simp_all add: replicate_append_same)

lemma qmarks_join_replicate: "qmarks (join '','' (replicate n ''?'')) = n"
proof (induction n)
  case 0
  show ?case by (simp add: qmarks_def)
next
  case (Suc n)
  show ?case
  proof (cases n)
    case 0
    then show ?thesis by (simp add: qmarks_def)
  next
    case (Suc m)
    have "join '','' (replicate (Suc (Suc m)) ''?'') = ''?'' @ '','' @ join '','' (replicate (Suc m) ''?'')"
      by simp
    moreover have "qmarks (join '','' (replicate (Suc m) ''?'')) = Suc m"
      using Suc.IH Suc by simp
    ultimately show ?thesis using Suc by (simp add: qmarks_def)
  qed
qed

lemma lockstep_appended:
  "placeholders cs = length vs \<Longrightarrow>
   lockstep q (q\<lparr>where_clauses := where_clauses q @ cs, bound_values := bound_values q @ vs\<rparr>)"
  by (simp add: lockstep_def)

lemma lockstep_appended_clauses:
  "placeholders cs = 0 \<Longrightarrow> lockstep q (q\<lparr>where_clauses := where_clauses q @ cs\<rparr>)"
  by (simp add: lockstep_def)

lemma lockstep_refl: "lockstep q q"
  by (simp add: lockstep_def placeholders_Nil)

lemma lockstep_trans:
  assumes "lockstep q q'" and "lockstep q' q''"
  shows "lockstep q q''"
proof -
  from assms(1) obtain cs vs where 1: "where_clauses q' = where_clauses q @ cs"
    "bound_values q' = bound_values q @ vs" "placeholders cs = length vs"
    unfolding lockstep_def by (metis append_take_drop_id)
  from assms(2) obtain cs' vs' where 2: "where_clauses q'' = where_clauses q' @ cs'"
    "bound_values q'' = bound_values q' @ vs'" "placeholders cs' = length vs'"
    unfolding lockstep_def by (metis append_take_drop_id)
  show ?thesis using 1 2 by (simp add: lockstep_def placeholders_append)
qed

lemma lockstep_invariant:
  assumes "lockstep q q'" and "placeholders (where_clauses q) = length (bound_values q)"
  shows "placeholders (where_clauses q') = length (bound_values q')"
proof -
  from assms(1) obtain cs vs where 1: "where_clauses q' = where_clauses q @ cs"
    "bound_values q' = bound_values q @ vs" "placeholders cs = length vs"
    unfolding lockstep_def by (metis append_take_drop_id)
  then show ?thesis using assms(2) by (simp add: placeholders_append)
qed

subsection \<open>Every builder operation extends the query in lock-step\<close>

lemma is_IN_no_question: "is_IN op \<Longrightarrow> CHR ''?'' \<notin> set op"
proof
  assume a: "is_IN op" and b: "CHR ''?'' \<in> set op"
  have "QChar_toLower CHR ''?'' = CHR ''?''" by code_simp
  with b have "CHR ''?'' \<in> set (toLower op)"
    unfolding toLower_def by (metis image_eqI set_map)
  moreover have "toLower ''IN'' = ''in''" by code_simp
  ultimately show False using a unfolding is_IN_def by simp
qed

lemma AddWhere_IN:
  "is_IN op \<Longrightarrow>
   AddWhere env column val op q =
     q\<lparr>where_clauses := where_clauses q
          @ [column @ '' IN ('' @ join '','' (replicate (length (toStringList env val)) ''?'') @ '')''],
       bound_values := bound_values q
          @ map QVariant_String (toStringList env val)\<rparr>"
  by (simp add: AddWhere_def IN_loop_eq)

lemma AddWhere_Int:
  "\<not> is_IN op \<Longrightarrow>
   AddWhere env column (QVariant_Int i) op q =
     q\<lparr>where_clauses := where_clauses q @ [column @ '' '' @ op @ '' '' @ QString_number i]\<rparr>"
  by (simp add: AddWhere_def toString_def chars_def)

lemma AddWhere_bound:
  "\<not> is_IN op \<Longrightarrow> (\<And>i. val \<noteq> QVariant_Int i) \<Longrightarrow>
   AddWhere env column val op q =
     q\<lparr>where_clauses := where_clauses q @ [column @ '' '' @ op @ '' ?''],
       bound_values := bound_values q
         @ [if val = QVariant_String None then QVariant_String (Some []) else val]\<rparr>"
  by (cases val) (auto simp: AddWhere_def split: option.splits)

lemma qmarks_lit: "qmarks '' '' = 0" "qmarks '' ?'' = 1" "qmarks '' IN ('' = 0" "qmarks '')'' = 0"
  by (simp_all add: qmarks_def)

lemma lockstep_AddWhere:
  assumes "CHR ''?'' \<notin> set column" and "CHR ''?'' \<notin> set op"
  shows "lockstep q (AddWhere env column val op q)"
proof (cases "is_IN op")
  case True
  show ?thesis
    unfolding AddWhere_IN [OF True]
    by (rule lockstep_appended)
      (simp only: placeholders_single qmarks_append qmarks_join_replicate
        qmarks_none [OF assms(1)] qmarks_lit length_map add_0 add_0_right)
next
  case False
  show ?thesis
  proof (cases "\<exists>i. val = QVariant_Int i")
    case True
    then obtain i where i: "val = QVariant_Int i" by blast
    show ?thesis
      unfolding i AddWhere_Int [OF False]
      by (rule lockstep_appended_clauses)
        (simp only: placeholders_single qmarks_append qmarks_none [OF assms(1)]
          qmarks_none [OF assms(2)] qmarks_lit qmarks_none [OF QString_number_no_question]
          add_0 add_0_right)
  next
    case notint: False
    then have n: "\<And>i. val \<noteq> QVariant_Int i" by blast
    show ?thesis
      unfolding AddWhere_bound [OF False n]
      by (rule lockstep_appended)
        (simp only: placeholders_single qmarks_append qmarks_none [OF assms(1)]
          qmarks_none [OF assms(2)] qmarks_lit add_0 add_0_right list.size One_nat_def)
  qed
qed

lemma lockstep_AddWhereArtist: "lockstep q (AddWhereArtist val q)"
proof -
  have "qmarks (''((artist = ? AND albumartist = '' @ sql_empty @ '') OR albumartist = ?)'') = 2"
    by code_simp
  then show ?thesis
    unfolding AddWhereArtist_def by (intro lockstep_appended) (simp add: placeholders_single)
qed

lemma rating_ops: "\<not> is_IN ''<''" "\<not> is_IN ''>''" "\<not> is_IN ''<=''" "\<not> is_IN ''>=''"
  by code_simp+

lemma lockstep_rating: 
  "op \<in> {''<'', ''>'', ''<='', ''>=''} \<Longrightarrow> lockstep q (AddWhere env ''rating'' (QVariant_Float x) op q)"
  by (rule lockstep_AddWhere) auto

lemma lockstep_AddWhereRating: "lockstep q (AddWhereRating env val op q)"
proof -
  have n: "qmarks ''(rating<? OR rating>?)'' = 2" by code_simp
  have ne: "lockstep q (q\<lparr>where_clauses := where_clauses q @ [''(rating<? OR rating>?)''],
             bound_values := bound_values q @ [a, b]\<rparr>)" for a b
    by (rule lockstep_appended) (simp add: placeholders_single n)
  have eq: "lockstep q (AddWhere env ''rating'' (QVariant_Float y) ''>''
      (AddWhere env ''rating'' (QVariant_Float x) ''<'' q))" for x y
    by (rule lockstep_trans [OF lockstep_rating lockstep_rating]) simp_all
  show ?thesis
    unfolding AddWhereRating_def Let_def
    by (simp add: lockstep_rating ne eq)
qed

lemma AddWhereRating_default:
  "AddWhereRating env val ''='' q =
     q\<lparr>where_clauses := where_clauses q @ [''rating < ?'', ''rating > ?''],
       bound_values := bound_values q
         @ [QVariant_Float (fadd (ParseSearchRating env (toString env val)) tolerance),
            QVariant_Float (fsub (ParseSearchRating env (toString env val)) tolerance)]\<rparr>"
  by (simp add: AddWhereRating_def Let_def AddWhere_bound rating_ops)

lemma example_rating:
  "AddWhereRating example_env (QVariant_String (Some ''4.0'')) ''='' q =
     q\<lparr>where_clauses := where_clauses q @ [''rating < ?'', ''rating > ?''],
       bound_values := bound_values q
         @ [QVariant_Float (Finite (8390705 / 2097152)),
            QVariant_Float (Finite (8386511 / 2097152))]\<rparr>"
  by (simp add: AddWhereRating_default example_env_def toString_def chars_def
      fadd_4_tolerance fsub_4_tolerance)

lemma lockstep_AddCompilationRequirement: "lockstep q (AddCompilationRequirement c q)"
proof -
  have "CHR ''?'' \<notin> set ''+compilation_effective = ''" by simp
  then have "qmarks (''+compilation_effective = '' @ QString_number i) = 0" for i
    by (simp only: qmarks_append qmarks_none QString_number_no_question not_False_eq_True)
  then show ?thesis
    unfolding AddCompilationRequirement_def
    by (intro lockstep_appended_clauses) (simp only: placeholders_single)
qed

lemma lockstep_run_call: "plain_call c \<Longrightarrow> lockstep q (run_call env c q)"
  by (cases c)
    (simp_all add: lockstep_AddWhere lockstep_AddWhereArtist lockstep_AddWhereRating
      lockstep_AddCompilationRequirement)

lemma lockstep_run_calls: "list_all plain_call calls \<Longrightarrow> lockstep q (run_calls env calls q)"
proof (induction calls arbitrary: q)
  case Nil
  show ?case by (simp add: run_calls_def lockstep_refl)
next
  case (Cons c calls)
  from Cons.prems have c: "plain_call c" and r: "list_all plain_call calls" by simp_all
  have "run_calls env (c # calls) q = run_calls env calls (run_call env c q)"
    by (simp add: run_calls_def)
  then show ?case
    using lockstep_trans [OF lockstep_run_call [OF c] Cons.IH [OF r]] by simp
qed

lemma new_CollectionQuery_invariant:
  "placeholders (where_clauses (new_CollectionQuery now table opts))
     = length (bound_values (new_CollectionQuery now table opts))"
proof -
  have a: "qmarks ''ctime > ?'' = 1" by code_simp
  have b: "qmarks (''(artist = '' @ sql_empty @ '' OR album = '' @ sql_empty
                   @ '' OR title ='' @ sql_empty @ '')'') = 0" by code_simp
  show ?thesis
    using a b by (simp add: new_CollectionQuery_def Let_def placeholders_append placeholders_single placeholders_Nil)
qed

subsection \<open>Replacing in a concatenation\<close>

lemma startsWith_iff: "startsWith s v = (take (length v) s = v)"
  by (induction s v rule: startsWith.induct) auto

lemma drop_append_short: "n \<le> length a \<Longrightarrow> drop n (a @ b) = drop n a @ b"
  by simp

lemma startsWith_length: "startsWith s v \<Longrightarrow> length v \<le> length s"
  by (induction s v rule: startsWith.induct) auto

lemma replace_no_first:
  assumes "old \<noteq> []" and "hd old \<notin> set s"
  shows "QString_replace old new s = s"
  using assms
proof (induction s)
  case Nil
  show ?case by simp
next
  case (Cons c s)
  from Cons.prems have "\<not> startsWith (c # s) old"
    by (cases old) auto
  with Cons show ?case by simp
qed

lemma startsWith_append_right:
  assumes "b = [] \<or> hd b \<notin> set old"
  shows "startsWith (a @ b) old = startsWith a old"
proof (cases "length old \<le> length a")
  case True
  then show ?thesis by (simp add: startsWith_iff)
next
  case False
  then have long: "length a < length old" by simp
  have "\<not> startsWith a old" using long startsWith_length [of a old] by auto
  moreover have "\<not> startsWith (a @ b) old"
  proof
    assume "startsWith (a @ b) old"
    then have t: "take (length old) (a @ b) = old" by (simp add: startsWith_iff)
    have "length (take (length old) (a @ b)) = length old" by (simp only: t)
    then have "length old \<le> length (a @ b)" by simp
    with long have bne: "b \<noteq> []" by auto
    have "old ! length a = (a @ b) ! length a"
      using t long by (metis nth_take)
    also have "\<dots> = hd b" using bne by (simp add: nth_append hd_conv_nth)
    finally have "hd b \<in> set old" using long by (metis nth_mem)
    with assms bne show False by simp
  qed
  ultimately show ?thesis by simp
qed

lemma replace_append_right:
  assumes "b = [] \<or> hd b \<notin> set old"
  shows "QString_replace old new (a @ b) = QString_replace old new a @ QString_replace old new b"
  using assms
proof (induction old new a rule: QString_replace.induct)
  case (1 old new)
  show ?case by simp
next
  case (2 old new c s)
  have k: "startsWith ((c # s) @ b) old = startsWith (c # s) old"
    using "2.prems" by (rule startsWith_append_right)
  show ?case
  proof (cases "old \<noteq> [] \<and> startsWith (c # s) old")
    case True
    then have len: "length old \<le> length (c # s)" using startsWith_length by blast
    have "QString_replace old new ((c # s) @ b)
        = new @ QString_replace old new (drop (length old) ((c # s) @ b))"
      using True k by simp
    also have "drop (length old) ((c # s) @ b) = drop (length old) (c # s) @ b"
      using len by (rule drop_append_short)
    also have "QString_replace old new (drop (length old) (c # s) @ b)
        = QString_replace old new (drop (length old) (c # s)) @ QString_replace old new b"
      using "2.IH"(1) [OF True "2.prems"] .
    finally show ?thesis using True by simp
  next
    case False
    then have "QString_replace old new ((c # s) @ b) = c # QString_replace old new (s @ b)"
      using k by auto
    then show ?thesis using "2.IH"(2) [OF False "2.prems"] False by auto
  qed
qed

lemma startsWith_append_left:
  assumes "a \<noteq> []" and "last a \<notin> set old"
  shows "startsWith (a @ b) old = startsWith a old"
proof (cases "length old \<le> length a")
  case True
  then show ?thesis by (simp add: startsWith_iff)
next
  case False
  then have long: "length a < length old" by simp
  have "\<not> startsWith a old" using long startsWith_length [of a old] by auto
  moreover have "\<not> startsWith (a @ b) old"
  proof
    assume "startsWith (a @ b) old"
    then have t: "take (length old) (a @ b) = old" by (simp add: startsWith_iff)
    have i: "length a - 1 < length old" using long by simp
    have "old ! (length a - 1) = (a @ b) ! (length a - 1)"
      using t i by (metis nth_take)
    also have "\<dots> = last a" using assms(1) by (simp add: nth_append last_conv_nth)
    finally have "last a \<in> set old" using i by (metis nth_mem)
    with assms show False by simp
  qed
  ultimately show ?thesis by simp
qed

lemma replace_append_left:
  assumes "a = [] \<or> last a \<notin> set old"
  shows "QString_replace old new (a @ b) = QString_replace old new a @ QString_replace old new b"
  using assms
proof (induction old new a rule: QString_replace.induct)
  case (1 old new)
  show ?case by simp
next
  case (2 old new c s)
  from "2.prems" have l: "last (c # s) \<notin> set old" by simp
  have k: "startsWith ((c # s) @ b) old = startsWith (c # s) old"
    using l by (intro startsWith_append_left) simp_all
  show ?case
  proof (cases "old \<noteq> [] \<and> startsWith (c # s) old")
    case True
    then have len: "length old \<le> length (c # s)" using startsWith_length by blast
    have r: "drop (length old) (c # s) = [] \<or> last (drop (length old) (c # s)) \<notin> set old"
      using l by (cases "drop (length old) (c # s) = []") (simp_all add: last_drop)
    have "QString_replace old new ((c # s) @ b)
        = new @ QString_replace old new (drop (length old) ((c # s) @ b))"
      using True k by simp
    also have "drop (length old) ((c # s) @ b) = drop (length old) (c # s) @ b"
      using len by (rule drop_append_short)
    also have "QString_replace old new (drop (length old) (c # s) @ b)
        = QString_replace old new (drop (length old) (c # s)) @ QString_replace old new b"
      using "2.IH"(1) [OF True r] .
    finally show ?thesis using True by simp
  next
    case False
    have r: "s = [] \<or> last s \<notin> set old" using l by (cases s) auto
    have "QString_replace old new ((c # s) @ b) = c # QString_replace old new (s @ b)"
      using False k by auto
    then show ?thesis using "2.IH"(2) [OF False r] False by auto
  qed
qed

subsection \<open>Placeholders and bound values\<close>

text \<open>
  C4, as the source has it. Take any list of builder calls (\<open>AddWhere\<close> with any value
  and any operator, \<open>IN\<close> included, \<open>AddWhereArtist\<close>, \<open>AddWhereRating\<close>,
  \<open>AddCompilationRequirement\<close>) in which no column text and no operator text passed to
  \<open>AddWhere\<close> holds a question mark, and run it on a query fresh from the constructor,
  for any filter options. Then the constructed query and the final query hold as many
  question marks in their clauses as they hold bound values, and every call extends the
  query in lock-step: it appends clauses and appends bound values, and the clauses it
  appends hold as many question marks as it appends values. So the i-th bound value
  belongs to the i-th question mark.
\<close>

theorem builder_calls_lockstep:
  assumes "list_all plain_call calls"
  shows "(let q0 = new_CollectionQuery now table opts; q = run_calls env calls q0
          in placeholders (where_clauses q0) = length (bound_values q0)
             \<and> placeholders (where_clauses q) = length (bound_values q)
             \<and> (\<forall>n<length calls.
                   lockstep (run_calls env (take n calls) q0)
                     (run_calls env (take (Suc n) calls) q0)))"
proof -
  define q0 where "q0 = new_CollectionQuery now table opts"
  have i0: "placeholders (where_clauses q0) = length (bound_values q0)"
    unfolding q0_def by (rule new_CollectionQuery_invariant)
  have i: "placeholders (where_clauses (run_calls env calls q0))
      = length (bound_values (run_calls env calls q0))"
    using lockstep_run_calls [OF assms] i0 by (rule lockstep_invariant)
  have s: "lockstep (run_calls env (take n calls) q0) (run_calls env (take (Suc n) calls) q0)"
    if n: "n < length calls" for n
  proof -
    have "plain_call (calls ! n)" using assms n by (simp add: list_all_length)
    moreover have "run_calls env (take (Suc n) calls) q0
        = run_call env (calls ! n) (run_calls env (take n calls) q0)"
      using n by (simp add: run_calls_def take_Suc_conv_app_nth)
    ultimately show ?thesis by (simp add: lockstep_run_call)
  qed
  from i0 i s show ?thesis unfolding q0_def Let_def by blast
qed

text \<open>The example calls after a constructor with a maximal age: seven clauses, eight
  question marks, eight bound values.\<close>

theorem builder_calls_lockstep_witness:
  "list_all plain_call example_calls
   \<and> where_clauses (run_calls example_env example_calls
         (new_CollectionQuery 7200 ''songs'' \<lparr>max_age = 3600, filter_mode = FilterMode_All\<rparr>))
       = [''ctime > ?'', ''year = 2020'', ''track IN (?,?,?)'',
          ''((artist = ? AND albumartist = '' @ sql_empty @ '') OR albumartist = ?)'',
          ''rating < ?'', ''rating > ?'', ''+compilation_effective = 0'']
   \<and> placeholders (where_clauses (run_calls example_env example_calls
         (new_CollectionQuery 7200 ''songs'' \<lparr>max_age = 3600, filter_mode = FilterMode_All\<rparr>)))
       = 8
   \<and> length (bound_values (run_calls example_env example_calls
         (new_CollectionQuery 7200 ''songs'' \<lparr>max_age = 3600, filter_mode = FilterMode_All\<rparr>)))
       = 8"
proof -
  let ?q0 = "new_CollectionQuery 7200 ''songs'' \<lparr>max_age = 3600, filter_mode = FilterMode_All\<rparr>"
  let ?q3 = "AddWhereArtist (QVariant_String (Some ''Daft Punk''))
     (AddWhere example_env ''track'' (QVariant_StringList [Some ''1'', Some ''2'', Some ''3''])
        ''IN'' (AddWhere example_env ''year'' (QVariant_Int 2020) ''='' ?q0))"
  let ?q = "run_calls example_env example_calls ?q0"
  have a: "list_all plain_call example_calls" by code_simp
  have s: "?q = AddCompilationRequirement False
      (AddWhereRating example_env (QVariant_String (Some ''4.0'')) ''='' ?q3)"
    by (simp add: run_calls_def example_calls_def)
  have w3: "where_clauses ?q3 = [''ctime > ?'', ''year = 2020'', ''track IN (?,?,?)'',
          ''((artist = ? AND albumartist = '' @ sql_empty @ '') OR albumartist = ?)'']"
    by code_simp
  have l3: "length (bound_values ?q3) = 6" by code_simp
  have n0: "QString_number 0 = ''0''" by code_simp
  have w: "where_clauses ?q = [''ctime > ?'', ''year = 2020'', ''track IN (?,?,?)'',
          ''((artist = ? AND albumartist = '' @ sql_empty @ '') OR albumartist = ?)'',
          ''rating < ?'', ''rating > ?'', ''+compilation_effective = 0'']"
    by (simp only: s example_rating AddCompilationRequirement_def w3) (simp add: n0)
  have l: "length (bound_values ?q) = 8"
    by (simp only: s example_rating AddCompilationRequirement_def) (simp add: l3)
  have "placeholders (where_clauses ?q) = length (bound_values ?q)"
    using builder_calls_lockstep [OF a, of 7200 "''songs''" "\<lparr>max_age = 3600, filter_mode = FilterMode_All\<rparr>" example_env]
    by (simp add: Let_def)
  with a w l show ?thesis by simp
qed

text \<open>C4 as stated fails when a column text brings a question mark of its own:
  \<^verbatim>\<open>AddWhere("a?", "x", "=")\<close> appends the clause \<^verbatim>\<open>a? = ?\<close>, with two question marks,
  and one bound value.\<close>

theorem AddWhere_column_question_mark_counterexample:
  "placeholders (where_clauses (AddWhere example_env ''a?'' (QVariant_String (Some ''x'')) ''=''
      example_query)) = 2
   \<and> length (bound_values (AddWhere example_env ''a?'' (QVariant_String (Some ''x'')) ''=''
      example_query)) = 1"
  by code_simp

subsection \<open>Ratings and integers\<close>

text \<open>
  C5, as the source has it. For a rating value whose text parses to the rating \<open>p\<close>,
  \<open>AddWhereRating\<close> with the operator \<^verbatim>\<open>=\<close> appends the two clauses \<^verbatim>\<open>rating < ?\<close>
  and \<^verbatim>\<open>rating > ?\<close>, in this order, and the two bound values \<^verbatim>\<open>p + 0.001F\<close> and
  \<^verbatim>\<open>p - 0.001F\<close>, in this order, computed in \<^verbatim>\<open>float\<close>. They are not \<open>p + 0.001\<close> and
  \<open>p - 0.001\<close>, but for a finite \<open>p\<close> of magnitude up to 5 they are finite, within
  \<open>1 / 4000000\<close> of these numbers, and \<open>p\<close> lies strictly between them.
\<close>

theorem AddWhereRating_equal:
  assumes "ParseSearchRating env (toString env val) = p"
  shows "AddWhereRating env val ''='' q =
       q\<lparr>where_clauses := where_clauses q @ [''rating < ?'', ''rating > ?''],
         bound_values := bound_values q
           @ [QVariant_Float (fadd p tolerance), QVariant_Float (fsub p tolerance)]\<rparr>
     \<and> (\<forall>r. p = Finite r \<and> \<bar>r\<bar> \<le> 5 \<longrightarrow>
          (\<exists>u l. fadd p tolerance = Finite u \<and> fsub p tolerance = Finite l
             \<and> \<bar>u - (r + 1 / 1000)\<bar> \<le> 1 / 4000000
             \<and> \<bar>l - (r - 1 / 1000)\<bar> \<le> 1 / 4000000
             \<and> l < r \<and> r < u))"
proof -
  have 1: "AddWhereRating env val ''='' q =
       q\<lparr>where_clauses := where_clauses q @ [''rating < ?'', ''rating > ?''],
         bound_values := bound_values q
           @ [QVariant_Float (fadd p tolerance), QVariant_Float (fsub p tolerance)]\<rparr>"
    using assms by (simp add: AddWhereRating_default)
  have 2: "\<exists>u l. fadd p tolerance = Finite u \<and> fsub p tolerance = Finite l
             \<and> \<bar>u - (r + 1 / 1000)\<bar> \<le> 1 / 4000000
             \<and> \<bar>l - (r - 1 / 1000)\<bar> \<le> 1 / 4000000
             \<and> l < r \<and> r < u"
    if p: "p = Finite r" and r: "\<bar>r\<bar> \<le> 5" for r
  proof -
    from fadd_tolerance_error [OF r] obtain u where
      u: "fadd (Finite r) tolerance = Finite u" "\<bar>u - (r + 1 / 1000)\<bar> \<le> 1 / 4000000"
      by blast
    from fsub_tolerance_error [OF r] obtain l where
      l: "fsub (Finite r) tolerance = Finite l" "\<bar>l - (r - 1 / 1000)\<bar> \<le> 1 / 4000000"
      by blast
    have "l < r" using l(2) by linarith
    moreover have "r < u" using u(2) by linarith
    ultimately show ?thesis using u l p by blast
  qed
  from 1 2 show ?thesis by blast
qed

text \<open>The text \<^verbatim>\<open>4.0\<close>, read as the rating 4: the bound values are the \<^verbatim>\<open>float\<close> numbers
  \<open>8390705 / 2097152\<close> (4.00099992...) and \<open>8386511 / 2097152\<close> (3.99900007...), and
  the text that \<open>Exec\<close> prepares joins the two clauses with \<^verbatim>\<open>AND\<close>.\<close>

theorem AddWhereRating_equal_witness:
  "ParseSearchRating example_env (toString example_env (QVariant_String (Some ''4.0'')))
       = Finite 4
   \<and> AddWhereRating example_env (QVariant_String (Some ''4.0'')) ''='' example_query =
       example_query\<lparr>where_clauses := [''rating < ?'', ''rating > ?''],
         bound_values := [QVariant_Float (Finite (8390705 / 2097152)),
                          QVariant_Float (Finite (8386511 / 2097152))]\<rparr>
   \<and> \<bar>8390705 / 2097152 - (4 + 1 / 1000)\<bar> \<le> (1 / 4000000 :: rat)
   \<and> \<bar>8386511 / 2097152 - (4 - 1 / 1000)\<bar> \<le> (1 / 4000000 :: rat)
   \<and> Exec_sql (AddWhereRating example_env (QVariant_String (Some ''4.0'')) ''='' example_query)
       = ''SELECT title FROM songs  WHERE rating < ? AND rating > ? AND unavailable = 0''"
proof -
  have a: "ParseSearchRating example_env (toString example_env (QVariant_String (Some ''4.0'')))
      = Finite 4"
    by (simp add: example_env_def toString_def chars_def)
  have w: "where_clauses example_query = []" "bound_values example_query = []"
    by (simp_all add: example_query_def new_CollectionQuery_def)
  have t: "fadd (Finite 4) tolerance = Finite (8390705 / 2097152)"
    "fsub (Finite 4) tolerance = Finite (8386511 / 2097152)"
    by (rule fadd_4_tolerance fsub_4_tolerance)+
  have e: "AddWhereRating example_env (QVariant_String (Some ''4.0'')) ''='' example_query =
       example_query\<lparr>where_clauses := [''rating < ?'', ''rating > ?''],
         bound_values := [QVariant_Float (Finite (8390705 / 2097152)),
                          QVariant_Float (Finite (8386511 / 2097152))]\<rparr>"
    using AddWhereRating_equal [OF a, of example_query] w t by simp
  have x: "Exec_sql (AddWhereRating example_env (QVariant_String (Some ''4.0'')) ''='' example_query)
       = ''SELECT title FROM songs  WHERE rating < ? AND rating > ? AND unavailable = 0''"
    by (simp only: e) code_simp
  have b: "\<bar>8390705 / 2097152 - (4 + 1 / 1000)\<bar> \<le> (1 / 4000000 :: rat)"
    "\<bar>8386511 / 2097152 - (4 - 1 / 1000)\<bar> \<le> (1 / 4000000 :: rat)"
    by simp_all
  from a e b x show ?thesis by (simp only: simp_thms)
qed

text \<open>C5 as stated fails at the text \<^verbatim>\<open>4.0\<close>: the first bound value is the \<^verbatim>\<open>float\<close>
  \<open>8390705 / 2097152\<close> and not 4.001, the second is \<open>8386511 / 2097152\<close> and not 3.999;
  a rating equal to the first bound value is below 4.001 and above 3.999, and it is not
  below the first bound value.\<close>

theorem AddWhereRating_equal_counterexample:
  "bound_values (AddWhereRating example_env (QVariant_String (Some ''4.0'')) ''='' example_query)
       = [QVariant_Float (Finite (8390705 / 2097152)),
          QVariant_Float (Finite (8386511 / 2097152))]
   \<and> (8390705 / 2097152 :: rat) \<noteq> 4 + 1 / 1000
   \<and> (8386511 / 2097152 :: rat) \<noteq> 4 - 1 / 1000
   \<and> (8390705 / 2097152 :: rat) < 4 + 1 / 1000
   \<and> (4 - 1 / 1000 :: rat) < 8390705 / 2097152
   \<and> \<not> (8390705 / 2097152 :: rat) < 8390705 / 2097152"
proof -
  have "bound_values (AddWhereRating example_env (QVariant_String (Some ''4.0'')) ''=''
      example_query)
       = [QVariant_Float (Finite (8390705 / 2097152)),
          QVariant_Float (Finite (8386511 / 2097152))]"
    by (simp add: example_rating example_query_def new_CollectionQuery_def)
  then show ?thesis by simp
qed

text \<open>
  C6, as the source has it. For every column and every operator that is not \<^verbatim>\<open>IN\<close>
  (letter case aside): for a value of the variant type \<^verbatim>\<open>Int\<close> (a C++ \<^verbatim>\<open>int\<close>),
  \<open>AddWhere\<close> appends the one clause made of the column, the operator and the decimal
  text of the integer, separated by spaces, and leaves the bound values as they were;
  for an integer of the variant type \<^verbatim>\<open>LongLong\<close> it appends the clause with a question
  mark and binds the integer, as it does for every value that is not of the type
  \<^verbatim>\<open>Int\<close> (the null string is bound as the empty string).
\<close>

theorem AddWhere_integer_inline:
  assumes "\<not> is_IN op"
  shows "AddWhere env column (QVariant_Int v) op q =
       q\<lparr>where_clauses := where_clauses q @ [column @ '' '' @ op @ '' '' @ QString_number v]\<rparr>
     \<and> bound_values (AddWhere env column (QVariant_Int v) op q) = bound_values q
     \<and> AddWhere env column (QVariant_LongLong w) op q =
         q\<lparr>where_clauses := where_clauses q @ [column @ '' '' @ op @ '' ?''],
           bound_values := bound_values q @ [QVariant_LongLong w]\<rparr>
     \<and> ((\<forall>i. val \<noteq> QVariant_Int i) \<longrightarrow>
          AddWhere env column val op q =
            q\<lparr>where_clauses := where_clauses q @ [column @ '' '' @ op @ '' ?''],
              bound_values := bound_values q
                @ [if val = QVariant_String None then QVariant_String (Some []) else val]\<rparr>)"
  using assms by (simp add: AddWhere_Int AddWhere_bound)

text \<open>\<^verbatim>\<open>AddWhere("year", 2020, "=")\<close> with an \<^verbatim>\<open>int\<close> appends \<^verbatim>\<open>year = 2020\<close> and binds
  nothing; \<^verbatim>\<open>AddWhere("ctime", 1700000000, "=")\<close> with a \<^verbatim>\<open>qint64\<close> appends
  \<^verbatim>\<open>ctime = ?\<close> and binds the number.\<close>

theorem AddWhere_integer_inline_witness:
  "\<not> is_IN ''=''
   \<and> where_clauses (AddWhere example_env ''year'' (QVariant_Int 2020) ''='' example_query)
       = [''year = 2020'']
   \<and> bound_values (AddWhere example_env ''year'' (QVariant_Int 2020) ''='' example_query) = []
   \<and> where_clauses (AddWhere example_env ''ctime'' (QVariant_LongLong 1700000000) ''=''
        example_query) = [''ctime = ?'']
   \<and> bound_values (AddWhere example_env ''ctime'' (QVariant_LongLong 1700000000) ''=''
        example_query) = [QVariant_LongLong 1700000000]"
proof -
  have a: "\<not> is_IN ''=''" by code_simp
  have w: "where_clauses example_query = []" "bound_values example_query = []"
    by (simp_all add: example_query_def new_CollectionQuery_def)
  have n: "QString_number 2020 = ''2020''" by code_simp
  from AddWhere_integer_inline [OF a, of example_env "''year''" 2020 example_query]
    AddWhere_integer_inline [OF a, of example_env "''ctime''" 2020 example_query
      1700000000]
    a w n
  show ?thesis by simp
qed

text \<open>C6 as stated fails at an integer of the type \<^verbatim>\<open>qlonglong\<close>:
  \<^verbatim>\<open>AddWhere("mtime", 2020LL, "=")\<close> appends \<^verbatim>\<open>mtime = ?\<close>, not \<^verbatim>\<open>mtime = 2020\<close>, and
  binds a value.\<close>

theorem AddWhere_qlonglong_bound_counterexample:
  "where_clauses (AddWhere example_env ''mtime'' (QVariant_LongLong 2020) ''='' example_query)
       = [''mtime = ?'']
   \<and> bound_values (AddWhere example_env ''mtime'' (QVariant_LongLong 2020) ''='' example_query)
       = [QVariant_LongLong 2020]"
  by code_simp

subsection \<open>The limit\<close>

lemma Exec_limit_replace:
  "QString_replace ''%songs_table'' t (Exec_limit q) = Exec_limit q"
proof (cases "limit q = - 1")
  case True
  then show ?thesis by (simp add: Exec_limit_def)
next
  case False
  have "CHR ''%'' \<notin> set '' LIMIT ''" by simp
  then have "CHR ''%'' \<notin> set ('' LIMIT '' @ QString_number (limit q))"
    using QString_number_no_percent [of "limit q"] by (simp only: set_append Un_iff) blast
  then have "hd ''%songs_table'' \<notin> set (Exec_limit q)"
    using False by (simp add: Exec_limit_def)
  then show ?thesis by (intro replace_no_first) simp
qed

lemma Exec_limit_head: "Exec_limit q = [] \<or> hd (Exec_limit q) \<notin> set ''%songs_table''"
  by (simp add: Exec_limit_def)

text \<open>
  C8, as the source has it. The text that \<open>Exec\<close> prepares is the text it would
  prepare without a limit, followed by \<^verbatim>\<open> LIMIT n\<close> exactly when the stored limit \<open>n\<close>
  is not \<open>-1\<close>, the value the constructor stores.
\<close>

theorem Exec_sql_limit:
  "Exec_sql q =
     Exec_sql (q\<lparr>limit := - 1\<rparr>)
       @ (if limit q \<noteq> - 1 then '' LIMIT '' @ QString_number (limit q) else [])"
proof -
  let ?r = "QString_replace ''%songs_table'' (songs_table q)"
  let ?a = "Exec_select q @ Exec_where q @ Exec_order_by q"
  have u: "Exec_sql_unreplaced q = ?a @ Exec_limit q"
    by (simp add: Exec_sql_unreplaced_def)
  have n: "Exec_sql (q\<lparr>limit := - 1\<rparr>) = ?r ?a"
    by (simp add: Exec_sql_def Exec_sql_unreplaced_def Exec_select_def Exec_where_def
        Exec_order_by_def Exec_limit_def Exec_where_clauses_def GetInnerQuery_def)
  have "Exec_sql q = ?r (?a @ Exec_limit q)"
    by (simp only: Exec_sql_def u)
  also have "\<dots> = ?r ?a @ ?r (Exec_limit q)"
    using Exec_limit_head by (rule replace_append_right)
  also have "\<dots> = ?r ?a @ Exec_limit q"
    by (simp only: Exec_limit_replace)
  finally show ?thesis by (simp only: n Exec_limit_def)
qed

text \<open>The limits 10 and \<open>-1\<close> on the example query.\<close>

theorem Exec_sql_limit_witness:
  "Exec_sql (example_query\<lparr>limit := 10\<rparr>)
       = ''SELECT title FROM songs  WHERE unavailable = 0 LIMIT 10''
   \<and> Exec_sql (example_query\<lparr>limit := - 1\<rparr>)
       = ''SELECT title FROM songs  WHERE unavailable = 0''"
proof -
  have a: "Exec_sql (example_query\<lparr>limit := - 1\<rparr>)
       = ''SELECT title FROM songs  WHERE unavailable = 0''"
    by code_simp
  have n: "QString_number 10 = ''10''" by code_simp
  have "Exec_sql (example_query\<lparr>limit := 10\<rparr>)
      = Exec_sql (example_query\<lparr>limit := 10, limit := - 1\<rparr>) @ '' LIMIT '' @ QString_number 10"
    using Exec_sql_limit [of "example_query\<lparr>limit := 10\<rparr>"] by simp
  with a n show ?thesis by simp
qed

text \<open>C8 as stated fails at the negative limit \<open>-2\<close>: the text prepared ends with
  \<^verbatim>\<open>LIMIT -2\<close>.\<close>

theorem Exec_sql_negative_limit_counterexample:
  "limit (example_query\<lparr>limit := - 2\<rparr>) < 0
   \<and> Exec_sql (example_query\<lparr>limit := - 2\<rparr>)
       = ''SELECT title FROM songs  WHERE unavailable = 0 LIMIT -2''"
  by code_simp

subsection \<open>The empty list of IN\<close>

lemma join_append:
  "join sep (xs @ c # ys) =
     (if xs = [] then [] else join sep xs @ sep) @ c @ (if ys = [] then [] else sep @ join sep ys)"
proof (induction sep xs rule: join.induct)
  case (1 sep)
  show ?case by (cases ys) simp_all
next
  case (2 sep x)
  show ?case by (cases ys) simp_all
next
  case (3 sep x y zs)
  then show ?case by simp
qed

lemma space_not_in_table_marker: "CHR '' '' \<notin> set ''%songs_table''"
  by simp

lemma Exec_tail_head:
  "Exec_order_by q @ Exec_limit q = []
   \<or> hd (Exec_order_by q @ Exec_limit q) = CHR '' ''"
  by (simp add: Exec_order_by_def Exec_limit_def)

lemma Exec_sql_unreplaced_split:
  assumes "where_clauses q = W @ [cl]"
  shows "\<exists>P R. Exec_sql_unreplaced q = P @ cl @ R \<and> P \<noteq> [] \<and> last P = CHR '' ''
           \<and> (R = [] \<or> hd R = CHR '' '')"
proof -
  define rest where "rest = (if \<not> include_unavailable q then [''unavailable = 0''] else [])"
  define A where "A = (if W = [] then [] else join '' AND '' W @ '' AND '')"
  define B where "B = (if rest = [] then [] else '' AND '' @ join '' AND '' rest)"
  define P where "P = Exec_select q @ '' WHERE '' @ A"
  define R where "R = B @ Exec_order_by q @ Exec_limit q"
  have c: "Exec_where_clauses q = W @ cl # rest"
    by (simp add: Exec_where_clauses_def assms rest_def)
  then have "Exec_where q = '' WHERE '' @ join '' AND '' (W @ cl # rest)"
    by (simp add: Exec_where_def)
  also have "join '' AND '' (W @ cl # rest) = A @ cl @ B"
    unfolding A_def B_def by (rule join_append)
  finally have "Exec_sql_unreplaced q = P @ cl @ R"
    by (simp add: Exec_sql_unreplaced_def P_def R_def)
  moreover have "P \<noteq> []" by (simp add: P_def)
  moreover have "last P = CHR '' ''" by (simp add: P_def A_def)
  moreover have "R = [] \<or> hd R = CHR '' ''"
    using Exec_tail_head [of q] by (cases "B = []") (auto simp: R_def B_def split: if_splits)
  ultimately show ?thesis by blast
qed

text \<open>
  C10. \<open>AddWhere\<close> with the operator \<^verbatim>\<open>IN\<close> (letter case aside) and a value whose
  string list is empty appends the one clause made of the column and \<^verbatim>\<open> IN ()\<close>, in
  which the list adds no question mark, and leaves the bound values as they were; and
  the text that \<open>Exec\<close> prepares holds the column (with the table name put in where
  the column names the table marker) followed by \<^verbatim>\<open> IN ()\<close> as written.
\<close>

theorem AddWhere_IN_empty_list:
  assumes "is_IN op" and "toStringList env val = []"
  shows "AddWhere env column val op q = q\<lparr>where_clauses := where_clauses q @ [column @ '' IN ()'']\<rparr>
     \<and> bound_values (AddWhere env column val op q) = bound_values q
     \<and> qmarks (column @ '' IN ()'') = qmarks column
     \<and> (\<exists>pre post. Exec_sql (AddWhere env column val op q)
           = pre @ QString_replace ''%songs_table'' (songs_table q) column @ '' IN ()'' @ post)"
proof -
  let ?q' = "AddWhere env column val op q"
  let ?cl = "column @ '' IN ()''"
  let ?r = "QString_replace ''%songs_table'' (songs_table q)"
  have e: "?q' = q\<lparr>where_clauses := where_clauses q @ [?cl]\<rparr>"
    by (simp add: AddWhere_IN [OF assms(1)] assms(2))
  have b: "bound_values ?q' = bound_values q" by (simp add: e)
  have m: "qmarks ?cl = qmarks column" by (simp add: qmarks_def)
  have w: "where_clauses ?q' = where_clauses q @ [?cl]" by (simp add: e)
  from Exec_sql_unreplaced_split [OF w] obtain P R where
    u: "Exec_sql_unreplaced ?q' = P @ ?cl @ R" and P: "P \<noteq> []" "last P = CHR '' ''"
    and R: "R = [] \<or> hd R = CHR '' ''" by blast
  have t: "songs_table ?q' = songs_table q" by (simp add: e)
  have PP: "P = [] \<or> last P \<notin> set ''%songs_table''"
    using P space_not_in_table_marker by (simp only:) simp
  have RR: "R = [] \<or> hd R \<notin> set ''%songs_table''"
    using R space_not_in_table_marker by auto
  have II: "'' IN ()'' = [] \<or> hd '' IN ()'' \<notin> set ''%songs_table''"
    by simp
  have "Exec_sql ?q' = ?r (P @ (?cl @ R))"
    by (simp only: Exec_sql_def u t)
  also have "\<dots> = ?r P @ ?r (?cl @ R)"
    using PP by (rule replace_append_left)
  also have "?r (?cl @ R) = ?r ?cl @ ?r R"
    using RR by (rule replace_append_right)
  also have "?r ?cl = ?r column @ ?r '' IN ()''"
    using II by (rule replace_append_right)
  also have "?r '' IN ()'' = '' IN ()''"
    by (rule replace_no_first) simp_all
  finally have "Exec_sql ?q' = ?r P @ ?r column @ '' IN ()'' @ ?r R" by simp
  then have "\<exists>pre post. Exec_sql ?q' = pre @ ?r column @ '' IN ()'' @ post" by blast
  with e b m show ?thesis by blast
qed

text \<open>\<^verbatim>\<open>AddWhere("track", [], "IN")\<close> on the example query, and the text prepared.\<close>

theorem AddWhere_IN_empty_list_witness:
  "is_IN ''IN'' \<and> toStringList example_env (QVariant_List []) = []
   \<and> where_clauses (AddWhere example_env ''track'' (QVariant_List []) ''IN'' example_query)
       = [''track IN ()'']
   \<and> bound_values (AddWhere example_env ''track'' (QVariant_List []) ''IN'' example_query) = []
   \<and> Exec_sql (AddWhere example_env ''track'' (QVariant_List []) ''IN'' example_query)
       = ''SELECT title FROM songs  WHERE track IN () AND unavailable = 0''"
proof -
  have a: "is_IN ''IN''" by code_simp
  have b: "toStringList example_env (QVariant_List []) = []" by simp
  have w: "where_clauses example_query = []" "bound_values example_query = []"
    by (simp_all add: example_query_def new_CollectionQuery_def)
  have x: "Exec_sql (AddWhere example_env ''track'' (QVariant_List []) ''IN'' example_query)
       = ''SELECT title FROM songs  WHERE track IN () AND unavailable = 0''"
    by code_simp
  from AddWhere_IN_empty_list [OF a b, of "''track''" example_query] a b w x show ?thesis by simp
qed

end
